theory Spec2Isabelle
  imports
    Complex_Main
    "HOL-Library.Sublist"
    "HOL-Library.Multiset"
    "HOL-Library.Char_ord"
    "HOL-Library.List_Lexorder"
    "HOL-Library.Product_Lexorder"
begin

section \<open>Values of the upstream payload\<close>

text \<open>
  \<^verbatim>\<open>fetch_covid_data\<close> returns \<^verbatim>\<open>response.json()\<close>: any JSON value, decoded into
  Python's \<^verbatim>\<open>None\<close>, \<^verbatim>\<open>bool\<close>, \<^verbatim>\<open>int\<close>, \<^verbatim>\<open>float\<close>, \<^verbatim>\<open>str\<close>, \<^verbatim>\<open>list\<close> and
  \<^verbatim>\<open>dict\<close>. A float is modelled by the real number it denotes, a \<^verbatim>\<open>str\<close> by the list
  of its characters (one \<open>char\<close> per code point, which covers ASCII text), a \<^verbatim>\<open>dict\<close> by
  an association list read with \<open>map_of\<close>.
\<close>

datatype json =
    JNull
  | JBool bool
  | JInt int
  | JFloat real
  | JStr string
  | JList "json list"
  | JObj "(string \<times> json) list"

datatype py_error = AttributeError | TypeError | KeyError

text \<open>Python truthiness, as \<^verbatim>\<open>not x\<close> and \<^verbatim>\<open>x or d\<close> test it.\<close>

fun truthy :: "json \<Rightarrow> bool" where
  "truthy JNull = False"
| "truthy (JBool b) = b"
| "truthy (JInt i) = (i \<noteq> 0)"
| "truthy (JFloat x) = (x \<noteq> 0)"
| "truthy (JStr s) = (s \<noteq> [])"
| "truthy (JList xs) = (xs \<noteq> [])"
| "truthy (JObj kvs) = (kvs \<noteq> [])"

text \<open>\<^verbatim>\<open>x or d\<close>: the left operand when it is truthy, the right one otherwise.\<close>

definition py_or :: "json \<Rightarrow> json \<Rightarrow> json" where
  "py_or x d = (if truthy x then x else d)"

text \<open>
  \<^verbatim>\<open>obj.get(key, default)\<close>: only a \<^verbatim>\<open>dict\<close> has the method; every other value
  raises \<^verbatim>\<open>AttributeError\<close>.
\<close>

fun py_get :: "json \<Rightarrow> string \<Rightarrow> json \<Rightarrow> py_error + json" where
  "py_get (JObj kvs) k d = Inr (case map_of kvs k of None \<Rightarrow> d | Some v \<Rightarrow> v)"
| "py_get _ k d = Inl AttributeError"

text \<open>\<^verbatim>\<open>key in obj\<close> for a string key.\<close>

fun py_contains :: "string \<Rightarrow> json \<Rightarrow> py_error + bool" where
  "py_contains k (JObj kvs) = Inr (k \<in> set (map fst kvs))"
| "py_contains k (JList xs) = Inr (JStr k \<in> set xs)"
| "py_contains k (JStr s) = Inr (sublist k s)"
| "py_contains k _ = Inl TypeError"

text \<open>\<^verbatim>\<open>obj[key]\<close> for a string key.\<close>

fun py_getitem :: "json \<Rightarrow> string \<Rightarrow> py_error + json" where
  "py_getitem (JObj kvs) k = (case map_of kvs k of None \<Rightarrow> Inl KeyError | Some v \<Rightarrow> Inr v)"
| "py_getitem _ k = Inl TypeError"

text \<open>
  \<^verbatim>\<open>for record in v[:500]\<close>: the elements the loop visits. A list gives its first 500
  elements, a string its first 500 characters (each a one-character string); nothing
  else can be sliced (a dict raises as well: \<^verbatim>\<open>TypeError\<close>, or \<^verbatim>\<open>KeyError\<close> from
  Python 3.12 on; the model says \<^verbatim>\<open>TypeError\<close>).
\<close>

fun py_slice_iter :: "nat \<Rightarrow> json \<Rightarrow> py_error + json list" where
  "py_slice_iter n (JList xs) = Inr (take n xs)"
| "py_slice_iter n (JStr s) = Inr (map (\<lambda>c. JStr [c]) (take n s))"
| "py_slice_iter n _ = Inl TypeError"

section \<open>Strings\<close>

text \<open>
  \<^verbatim>\<open>str.upper\<close> and \<^verbatim>\<open>str.strip\<close> are built into Python and work on Unicode text;
  their character tables are not in the source and are a parameter here. A \<open>char\<close>
  stands for one code point (HOL has 256 of them; text with other code points is outside
  the model). \<open>to_upper py c\<close> is the upper-case mapping of the code point \<open>c\<close>, a string
  of one to three code points (the sharp s gives SS), and \<open>isspace py c\<close> says whether
  \<open>c\<close> is whitespace. \<^verbatim>\<open>str.upper\<close> maps every code point of the string, and
  \<^verbatim>\<open>str.strip\<close> removes the whitespace at both ends.
\<close>

record unicode_tables =
  to_upper :: "char \<Rightarrow> string"
  isspace :: "char \<Rightarrow> bool"

definition upper :: "unicode_tables \<Rightarrow> string \<Rightarrow> string" where
  "upper py s = concat (map (to_upper py) s)"

definition strip :: "unicode_tables \<Rightarrow> string \<Rightarrow> string" where
  "strip py s = rev (dropWhile (isspace py) (rev (dropWhile (isspace py) s)))"

text \<open>
  Tables for the examples. They agree with Python's on ASCII and on the other characters
  the examples use: e with acute accent (233, raised to 201), the sharp s (223, raised
  to SS), the next-line control (133) and the no-break space (160), both whitespace.
\<close>

definition example_upper :: "char \<Rightarrow> string" where
  "example_upper c =
     (let n = of_char c :: nat
      in if 97 \<le> n \<and> n \<le> 122 then [char_of (n - 32)]
         else if n = 233 then [char_of (201::nat)]
         else if n = 223 then ''SS''
         else [c])"

definition example_isspace :: "char \<Rightarrow> bool" where
  "example_isspace c =
     (let n = of_char c :: nat
      in (9 \<le> n \<and> n \<le> 13) \<or> (28 \<le> n \<and> n \<le> 32) \<or> n = 133 \<or> n = 160)"

definition example_tables :: unicode_tables where
  "example_tables = \<lparr> to_upper = example_upper, isspace = example_isspace \<rparr>"

section \<open>The record shape\<close>

text \<open>
  The fifteen keys of a cleaned record, which are also the columns of \<^verbatim>\<open>CovidRecord\<close>
  that \<^verbatim>\<open>store_data_in_db\<close> writes. \<^verbatim>\<open>country\<close> and \<^verbatim>\<open>country_code\<close> are always
  strings (they are results of \<^verbatim>\<open>strip\<close> and \<^verbatim>\<open>upper\<close>); the other values are whatever
  the payload held: \<open>'c\<close> for the continent, \<open>'i\<close> for the Integer columns, \<open>'f\<close> for the
  Float columns. The normalizer produces them as Python values (\<open>json\<close>).
\<close>

record ('c, 'i, 'f) stat =
  country :: string
  country_code :: string
  continent :: 'c
  population :: 'i
  total_cases :: 'i
  new_cases :: 'i
  total_deaths :: 'i
  new_deaths :: 'i
  total_recovered :: 'i
  active_cases :: 'i
  critical_cases :: 'i
  cases_per_million :: 'f
  deaths_per_million :: 'f
  total_tests :: 'i
  tests_per_million :: 'f

type_synonym cleaned = "(json, json, json) stat"

section \<open>Normalizer\<close>

text \<open>
  The body of the \<^verbatim>\<open>try\<close> block for one entry. \<open>Inr None\<close> is the \<^verbatim>\<open>continue\<close> of a
  skipped entry, \<open>Inr (Some r)\<close> the record appended, \<open>Inl e\<close> an exception raised
  inside the block. The dictionary display is evaluated key by key, in source order.
\<close>

definition str_of :: "json \<Rightarrow> py_error + string" where
  "str_of v = (case v of JStr s \<Rightarrow> Inr s | _ \<Rightarrow> Inl AttributeError)"

text \<open>Sequencing: an exception of the first step ends the block.\<close>

definition and_then :: "py_error + 'a \<Rightarrow> ('a \<Rightarrow> py_error + 'b) \<Rightarrow> py_error + 'b" where
  "and_then m f = (case m of Inl e \<Rightarrow> Inl e | Inr x \<Rightarrow> f x)"

text \<open>The dictionary display, once every value it reads is at hand.\<close>

definition cleaned_record_of ::
  "unicode_tables \<Rightarrow> string \<Rightarrow> string \<Rightarrow> json \<Rightarrow> json \<Rightarrow> json list \<Rightarrow> cleaned" where
  "cleaned_record_of py name raw cont pop vs = \<lparr>
       country = strip py name,
       country_code = upper py (take 3 raw),
       continent = cont,
       population = py_or pop (JInt 0),
       total_cases = py_or (vs ! 0) (JInt 0),
       new_cases = py_or (vs ! 1) (JInt 0),
       total_deaths = py_or (vs ! 2) (JInt 0),
       new_deaths = py_or (vs ! 3) (JInt 0),
       total_recovered = py_or (vs ! 4) (JInt 0),
       active_cases = py_or (vs ! 5) (JInt 0),
       critical_cases = py_or (vs ! 6) (JInt 0),
       cases_per_million = py_or (vs ! 7) (JFloat 0),
       deaths_per_million = py_or (vs ! 8) (JFloat 0),
       total_tests = py_or (vs ! 9) (JInt 0),
       tests_per_million = py_or (vs ! 10) (JFloat 0) \<rparr>"

definition process_record :: "unicode_tables \<Rightarrow> json \<Rightarrow> py_error + cleaned option" where
  "process_record py record =
     and_then (py_get record ''country'' (JStr ''Unknown'')) (\<lambda>country_name.
     if country_name \<in> set [JStr ''All'', JStr ''Unknown''] then Inr None else
     and_then (py_get record ''cases'' (JObj [])) (\<lambda>cases.
     and_then (py_get record ''deaths'' (JObj [])) (\<lambda>deaths.
     and_then (py_get record ''tests'' (JObj [])) (\<lambda>tests.
     and_then (str_of country_name) (\<lambda>name.
     and_then (py_get record ''country'' (JStr [])) (\<lambda>raw_country.
     and_then (str_of raw_country) (\<lambda>raw.
     and_then (py_get record ''continent'' (JStr ''Unknown'')) (\<lambda>cont.
     and_then (py_get record ''population'' JNull) (\<lambda>pop.
     and_then (py_get cases ''total'' JNull) (\<lambda>c_total.
     and_then (py_get cases ''new'' JNull) (\<lambda>c_new.
     and_then (py_get deaths ''total'' JNull) (\<lambda>d_total.
     and_then (py_get deaths ''new'' JNull) (\<lambda>d_new.
     and_then (py_get cases ''recovered'' JNull) (\<lambda>c_rec.
     and_then (py_get cases ''active'' JNull) (\<lambda>c_act.
     and_then (py_get cases ''critical'' JNull) (\<lambda>c_crit.
     and_then (py_get cases ''1M_pop'' JNull) (\<lambda>c_pm.
     and_then (py_get deaths ''1M_pop'' JNull) (\<lambda>d_pm.
     and_then (py_get tests ''total'' JNull) (\<lambda>t_total.
     and_then (py_get tests ''1M_pop'' JNull) (\<lambda>t_pm.
     Inr (Some (cleaned_record_of py name raw cont pop
       [c_total, c_new, d_total, d_new, c_rec, c_act, c_crit, c_pm, d_pm, t_total, t_pm]))
     ))))))))))))))))))))"

text \<open>
  The \<^verbatim>\<open>for\<close> loop: \<open>cleaned_records\<close> is the list built so far. An exception of the
  block is caught and the loop goes on, as after a \<^verbatim>\<open>continue\<close>.
\<close>

fun clean_loop :: "unicode_tables \<Rightarrow> json list \<Rightarrow> cleaned list \<Rightarrow> cleaned list" where
  "clean_loop py [] cleaned_records = cleaned_records"
| "clean_loop py (record # rest) cleaned_records =
     (case process_record py record of
        Inl e \<Rightarrow> clean_loop py rest cleaned_records
      | Inr None \<Rightarrow> clean_loop py rest cleaned_records
      | Inr (Some cleaned_record) \<Rightarrow> clean_loop py rest (cleaned_records @ [cleaned_record]))"

text \<open>
  The guard and the subscript are outside the \<^verbatim>\<open>try\<close>: what they raise leaves the
  function. \<^verbatim>\<open>or\<close> evaluates its right operand only when \<^verbatim>\<open>not raw_data\<close> is false.
\<close>

definition clean_and_transform_data ::
  "unicode_tables \<Rightarrow> json \<Rightarrow> py_error + cleaned list" where
  "clean_and_transform_data py raw_data =
     (if \<not> truthy raw_data then Inr []
      else case py_contains ''response'' raw_data of
        Inl e \<Rightarrow> Inl e
      | Inr False \<Rightarrow> Inr []
      | Inr True \<Rightarrow>
          (case py_getitem raw_data ''response'' of
             Inl e \<Rightarrow> Inl e
           | Inr v \<Rightarrow>
               (case py_slice_iter 500 v of
                  Inl e \<Rightarrow> Inl e
                | Inr entries \<Rightarrow> Inr (clean_loop py entries []))))"

text \<open>
  Vocabulary for the properties below. \<open>top_field\<close> is \<^verbatim>\<open>record.get(k, d)\<close> and
  \<open>sub_field\<close> is \<^verbatim>\<open>record.get(g, {}).get(k)\<close>, with \<open>JNull\<close> (Python's \<^verbatim>\<open>None\<close>) both
  for a missing key and for a stored null; \<open>resolved_country\<close> is the country name with
  \<^verbatim>\<open>'Unknown'\<close> substituted when it is missing; \<open>record_of_entry\<close> is the record an
  entry contributes to the output, if any.
\<close>

definition sub_field :: "json \<Rightarrow> string \<Rightarrow> string \<Rightarrow> json" where
  "sub_field record g k =
     (case py_get record g (JObj []) of
        Inr (JObj kvs) \<Rightarrow> (case map_of kvs k of None \<Rightarrow> JNull | Some v \<Rightarrow> v)
      | _ \<Rightarrow> JNull)"

definition top_field :: "json \<Rightarrow> string \<Rightarrow> json \<Rightarrow> json" where
  "top_field record k d = (case py_get record k d of Inr v \<Rightarrow> v | Inl e \<Rightarrow> d)"

definition resolved_country :: "json \<Rightarrow> py_error + json" where
  "resolved_country record = py_get record ''country'' (JStr ''Unknown'')"

definition record_of_entry :: "unicode_tables \<Rightarrow> json \<Rightarrow> cleaned option" where
  "record_of_entry py record =
     (case process_record py record of Inr (Some r) \<Rightarrow> Some r | _ \<Rightarrow> None)"

fun nonneg_number :: "json \<Rightarrow> bool" where
  "nonneg_number (JInt i) = (0 \<le> i)"
| "nonneg_number (JFloat x) = (0 \<le> x)"
| "nonneg_number _ = False"

definition numeric_fields :: "cleaned \<Rightarrow> json list" where
  "numeric_fields r =
     [population r, total_cases r, new_cases r, total_deaths r, new_deaths r,
      total_recovered r, active_cases r, critical_cases r, cases_per_million r,
      deaths_per_million r, total_tests r, tests_per_million r]"

definition numeric_sources :: "json \<Rightarrow> json list" where
  "numeric_sources record =
     [top_field record ''population'' JNull,
      sub_field record ''cases'' ''total'', sub_field record ''cases'' ''new'',
      sub_field record ''deaths'' ''total'', sub_field record ''deaths'' ''new'',
      sub_field record ''cases'' ''recovered'', sub_field record ''cases'' ''active'',
      sub_field record ''cases'' ''critical'', sub_field record ''cases'' ''1M_pop'',
      sub_field record ''deaths'' ''1M_pop'', sub_field record ''tests'' ''total'',
      sub_field record ''tests'' ''1M_pop'']"

definition numeric_defaults :: "json list" where
  "numeric_defaults =
     [JInt 0, JInt 0, JInt 0, JInt 0, JInt 0, JInt 0, JInt 0, JInt 0, JFloat 0,
      JFloat 0, JInt 0, JFloat 0]"

definition negative_payload :: json where
  "negative_payload = JObj [(''response'', JList [JObj [(''country'', JStr ''Testland''),
      (''cases'', JObj [(''total'', JInt (- 5)), (''new'', JStr ''+12'')])]])]"

definition sample_entry :: json where
  "sample_entry = JObj [(''country'', JStr ''  usa ''), (''continent'', JStr ''North-America''),
     (''population'', JInt 331000000),
     (''cases'', JObj [(''new'', JNull), (''total'', JInt 100), (''1M_pop'', JFloat 3)]),
     (''deaths'', JObj [(''total'', JInt 10)])]"

definition latin1_entry :: json where
  "latin1_entry = JObj [(''country'', JStr [CHR 0xA0, CHR 0xDF, CHR 0xE9, CHR ''t'', CHR '' ''])]"

definition capped_payload :: json where
  "capped_payload = JObj [(''response'',
     JList (replicate 500 (JObj [(''country'', JStr ''All'')])
            @ [JObj [(''country'', JStr ''Peru'')]]))]"

definition sample_payload :: json where
  "sample_payload = JObj [(''response'',
     JList [sample_entry, JObj [(''country'', JStr ''All'')], JNull,
            JObj [(''country'', JStr ''France''), (''cases'', JNull)],
            JObj [(''country'', JStr ''Peru'')]])]"

section \<open>Record store\<close>

text \<open>
  A row of the table \<^verbatim>\<open>covid_records\<close>: the fifteen columns a cleaned record fills, the
  primary key \<^verbatim>\<open>id\<close> (named \<open>id_col\<close> here) and \<^verbatim>\<open>date_recorded\<close>, a timestamp counted
  in clock ticks. The table is the list of its rows in the order the engine scans them
  (insertion order); no constraint makes \<^verbatim>\<open>country\<close> unique, so the list may hold two
  rows with one country.
\<close>

record ('c, 'i, 'f) CovidRecord = "('c, 'i, 'f) stat" +
  id_col :: nat
  date_recorded :: nat

text \<open>\<^verbatim>\<open>CovidRecord(**record)\<close>, once the insert has given it a key and the default date.\<close>

definition new_record :: "('c, 'i, 'f) stat \<Rightarrow> nat \<Rightarrow> nat \<Rightarrow> ('c, 'i, 'f) CovidRecord" where
  "new_record record i now = stat.extend record (CovidRecord.fields i now)"

text \<open>
  \<^verbatim>\<open>for key, value in record.items(): setattr(existing, key, value)\<close> followed by
  \<^verbatim>\<open>existing.date_recorded = datetime.utcnow()\<close>: all fifteen columns are replaced, the
  key stays.
\<close>

definition set_attrs ::
  "('c, 'i, 'f) CovidRecord \<Rightarrow> ('c, 'i, 'f) stat \<Rightarrow> nat \<Rightarrow> ('c, 'i, 'f) CovidRecord" where
  "set_attrs existing record now = stat.extend record (CovidRecord.fields (id_col existing) now)"

text \<open>
  Modelled from the spec: \<^verbatim>\<open>CovidRecord.query.filter_by(country=c).first()\<close> runs in
  the engine, which is not in the source. The spec has it "look up an existing stored row
  with the same country"; the row found is the first in table order.
\<close>

definition first_by_country ::
  "string \<Rightarrow> ('c, 'i, 'f) CovidRecord list \<Rightarrow> ('c, 'i, 'f) CovidRecord option" where
  "first_by_country c rows = find (\<lambda>row. country row = c) rows"

text \<open>The table after the row that the query returned has been modified.\<close>

fun update_existing ::
  "('c, 'i, 'f) stat \<Rightarrow> nat \<Rightarrow> ('c, 'i, 'f) CovidRecord list \<Rightarrow> ('c, 'i, 'f) CovidRecord list" where
  "update_existing record now [] = []"
| "update_existing record now (row # rows) =
     (if country row = country record then set_attrs row record now # rows
      else row # update_existing record now rows)"

text \<open>
  Modelled from the spec: the key of a new row is the engine's choice. It is one more
  than the largest key in the table here.
\<close>

definition next_id :: "('c, 'i, 'f) CovidRecord list \<Rightarrow> nat" where
  "next_id rows = Suc (fold max (map id_col rows) 0)"

section \<open>Reconciler\<close>

text \<open>
  One pass of the loop body of \<^verbatim>\<open>store_data_in_db\<close> on the rows the session sees. The
  session flushes before each query (SQLAlchemy's default, which the source does not
  change), so a record added earlier in the same batch is found by the query.
\<close>

definition upsert ::
  "('c, 'i, 'f) stat \<Rightarrow> nat \<Rightarrow> ('c, 'i, 'f) CovidRecord list \<Rightarrow> ('c, 'i, 'f) CovidRecord list" where
  "upsert record now rows =
     (case first_by_country (country record) rows of
        Some existing \<Rightarrow> update_existing record now rows
      | None \<Rightarrow> rows @ [new_record record (next_id rows) now])"

datatype db_error = StorageError

text \<open>
  The loop inside \<^verbatim>\<open>try\<close>. What the storage engine does is not in the source, so its
  failures are a parameter: \<open>fails k\<close> says that the engine raises at its \<open>k\<close>-th
  operation of the call, the query for record \<open>k\<close> (counted from 0) or, for \<open>k\<close> the
  number of records, the commit. \<open>clock k\<close> is the time read while record \<open>k\<close> is
  processed, and \<open>cnt\<close> is the counter of the source.
\<close>

fun store_loop ::
  "(nat \<Rightarrow> bool) \<Rightarrow> (nat \<Rightarrow> nat) \<Rightarrow> ('c, 'i, 'f) stat list \<Rightarrow> ('c, 'i, 'f) CovidRecord list
     \<Rightarrow> nat \<Rightarrow> db_error + ('c, 'i, 'f) CovidRecord list \<times> nat" where
  "store_loop fails clock [] session cnt = Inr (session, cnt)"
| "store_loop fails clock (record # records) session cnt =
     (if fails cnt then Inl StorageError
      else store_loop fails clock records (upsert record (clock cnt) session) (cnt + 1))"

text \<open>
  \<^verbatim>\<open>store_data_in_db\<close>: the table after the call and the number returned. An exception
  anywhere in the \<^verbatim>\<open>try\<close> leads to \<^verbatim>\<open>rollback\<close>, which leaves the table as it was,
  and to \<^verbatim>\<open>return 0\<close>.
\<close>

definition store_data_in_db ::
  "(nat \<Rightarrow> bool) \<Rightarrow> (nat \<Rightarrow> nat) \<Rightarrow> ('c, 'i, 'f) stat list \<Rightarrow> ('c, 'i, 'f) CovidRecord list
     \<Rightarrow> ('c, 'i, 'f) CovidRecord list \<times> nat" where
  "store_data_in_db fails clock records db =
     (case store_loop fails clock records db 0 of
        Inl e \<Rightarrow> (db, 0)
      | Inr (session, cnt) \<Rightarrow> if fails cnt then (db, 0) else (session, cnt))"

text \<open>
  Vocabulary for the properties: a row without its timestamp; the rows a batch leaves
  when the engine never fails; the last record of a batch for a country; and the table
  in which the first row of each country the batch mentions holds that last record.
\<close>

definition without_date :: "('c, 'i, 'f) CovidRecord \<Rightarrow> nat \<times> ('c, 'i, 'f) stat" where
  "without_date row = (id_col row, stat.truncate row)"

fun upsert_all ::
  "(nat \<Rightarrow> nat) \<Rightarrow> ('c, 'i, 'f) stat list \<Rightarrow> ('c, 'i, 'f) CovidRecord list \<Rightarrow> nat
     \<Rightarrow> ('c, 'i, 'f) CovidRecord list" where
  "upsert_all clock [] session cnt = session"
| "upsert_all clock (record # records) session cnt =
     upsert_all clock records (upsert record (clock cnt) session) (cnt + 1)"

definition latest :: "('c, 'i, 'f) stat list \<Rightarrow> string \<Rightarrow> ('c, 'i, 'f) stat option" where
  "latest records c = find (\<lambda>r. country r = c) (rev records)"

fun refresh ::
  "(string \<Rightarrow> ('c, 'i, 'f) stat option) \<Rightarrow> ('c, 'i, 'f) CovidRecord list
     \<Rightarrow> ('c, 'i, 'f) CovidRecord list" where
  "refresh m [] = []"
| "refresh m (row # rows) =
     (case m (country row) of
        None \<Rightarrow> row # refresh m rows
      | Some r \<Rightarrow> set_attrs row r (date_recorded row) # refresh (m(country row := None)) rows)"

text \<open>A record with the given country and total, for the examples.\<close>

definition sample_stat :: "string \<Rightarrow> int \<Rightarrow> (string, int, real) stat" where
  "sample_stat c n = \<lparr> country = c, country_code = upper example_tables (take 3 c), continent = ''Unknown'',
     population = 0, total_cases = n, new_cases = 0, total_deaths = 0, new_deaths = 0,
     total_recovered = 0, active_cases = 0, critical_cases = 0, cases_per_million = 0,
     deaths_per_million = 0, total_tests = 0, tests_per_million = 0 \<rparr>"

section \<open>Query service\<close>

text \<open>
  The read side works on the table as its schema declares it: \<^verbatim>\<open>continent\<close> is a
  nullable string, the Integer columns are nullable integers, the Float columns nullable
  reals. The engine's own failures are not modelled here: each route answers them with
  status 500.
\<close>

type_synonym stored = "(string option, int option, real option) CovidRecord"

subsection \<open>Aggregate statistics\<close>

text \<open>
  Modelled from the spec: \<^verbatim>\<open>db.session.query(db.func.sum(column)).scalar()\<close> runs in
  the engine, which is not in the source. The spec has it give the sum of the column
  "across the entire store (no filters)"; SQL's \<^verbatim>\<open>SUM\<close> skips NULLs and is NULL when no
  row has a value.
\<close>

definition sql_sum :: "int option list \<Rightarrow> int option" where
  "sql_sum xs = (case List.map_filter (\<lambda>x. x) xs of [] \<Rightarrow> None | v # vs \<Rightarrow> Some (sum_list (v # vs)))"

text \<open>\<^verbatim>\<open>x or 0\<close> on the scalar: \<^verbatim>\<open>None\<close> and \<^verbatim>\<open>0\<close> are falsy.\<close>

definition or_zero :: "int option \<Rightarrow> int" where
  "or_zero x = (case x of None \<Rightarrow> 0 | Some v \<Rightarrow> if v \<noteq> 0 then v else 0)"

text \<open>The JSON object of \<^verbatim>\<open>/api/statistics\<close>; its keys carry the prefix \<open>stats_\<close> here.\<close>

record statistics =
  stats_total_records :: nat
  stats_total_cases :: int
  stats_total_deaths :: int
  stats_total_recovered :: int
  stats_active_cases :: int

definition get_statistics :: "stored list \<Rightarrow> statistics" where
  "get_statistics db =
     (let total_records_v = length db;
          total_cases_v = or_zero (sql_sum (map total_cases db));
          total_deaths_v = or_zero (sql_sum (map total_deaths db));
          total_recovered_v = or_zero (sql_sum (map total_recovered db))
      in \<lparr> stats_total_records = total_records_v,
           stats_total_cases = total_cases_v,
           stats_total_deaths = total_deaths_v,
           stats_total_recovered = total_recovered_v,
           stats_active_cases = total_cases_v - total_deaths_v - total_recovered_v \<rparr>)"

text \<open>The sum of a column over the whole table, a NULL counting for nothing.\<close>

definition column_sum :: "(stored \<Rightarrow> int option) \<Rightarrow> stored list \<Rightarrow> int" where
  "column_sum col db = (\<Sum>row\<leftarrow>db. case col row of None \<Rightarrow> 0 | Some v \<Rightarrow> v)"

subsection \<open>Listing\<close>

text \<open>
  The query string, as \<^verbatim>\<open>request.args.get\<close> reads it: \<open>None\<close> for a parameter that is
  absent and, for the two read with \<^verbatim>\<open>type=int\<close>, also for one that is not an integer
  (the default is used then).
\<close>

record request_args =
  arg_page :: "int option"
  arg_per_page :: "int option"
  arg_country :: "string option"
  arg_continent :: "string option"
  arg_sort_by :: "string option"
  arg_order :: "string option"

text \<open>
  Values as the engine compares them in \<^verbatim>\<open>ORDER BY\<close>: NULL first, then numbers by
  value, then text by its bytes. \<open>order_key\<close> maps a value into a linear order that
  compares this way.
\<close>

datatype sql_value = Null | Integer int | Real real | Text string

fun order_key :: "sql_value \<Rightarrow> nat \<times> real \<times> string" where
  "order_key Null = (0, 0, [])"
| "order_key (Integer i) = (1, of_int i, [])"
| "order_key (Real x) = (1, x, [])"
| "order_key (Text s) = (2, 0, s)"

definition nullable :: "('a \<Rightarrow> sql_value) \<Rightarrow> 'a option \<Rightarrow> sql_value" where
  "nullable f x = (case x of None \<Rightarrow> Null | Some v \<Rightarrow> f v)"

text \<open>
  \<^verbatim>\<open>getattr(CovidRecord, sort_by)\<close> for the seventeen columns. For any other name the
  model answers with an error. That is what the code does for a name the class does not
  have and for most of its other attributes; a few of them (such as \<^verbatim>\<open>__doc__\<close>, which
  is \<^verbatim>\<open>None\<close>) the engine accepts as a sort key that orders nothing. These names are
  outside the model: every property below is about a name of a column.
\<close>

definition column :: "string \<Rightarrow> (stored \<Rightarrow> sql_value) option" where
  "column name =
     (if name = ''id'' then Some (\<lambda>r. Integer (int (id_col r)))
      else if name = ''country'' then Some (\<lambda>r. Text (country r))
      else if name = ''country_code'' then Some (\<lambda>r. Text (country_code r))
      else if name = ''continent'' then Some (\<lambda>r. nullable Text (continent r))
      else if name = ''population'' then Some (\<lambda>r. nullable Integer (population r))
      else if name = ''total_cases'' then Some (\<lambda>r. nullable Integer (total_cases r))
      else if name = ''new_cases'' then Some (\<lambda>r. nullable Integer (new_cases r))
      else if name = ''total_deaths'' then Some (\<lambda>r. nullable Integer (total_deaths r))
      else if name = ''new_deaths'' then Some (\<lambda>r. nullable Integer (new_deaths r))
      else if name = ''total_recovered'' then Some (\<lambda>r. nullable Integer (total_recovered r))
      else if name = ''active_cases'' then Some (\<lambda>r. nullable Integer (active_cases r))
      else if name = ''critical_cases'' then Some (\<lambda>r. nullable Integer (critical_cases r))
      else if name = ''cases_per_million'' then Some (\<lambda>r. nullable Real (cases_per_million r))
      else if name = ''deaths_per_million'' then Some (\<lambda>r. nullable Real (deaths_per_million r))
      else if name = ''total_tests'' then Some (\<lambda>r. nullable Integer (total_tests r))
      else if name = ''tests_per_million'' then Some (\<lambda>r. nullable Real (tests_per_million r))
      else if name = ''date_recorded'' then Some (\<lambda>r. Integer (int (date_recorded r)))
      else None)"

text \<open>
  Modelled from the spec: \<^verbatim>\<open>query.order_by(db.asc(column))\<close> and
  \<^verbatim>\<open>query.order_by(db.desc(column))\<close> run in the engine, which is not in the source.
  The spec calls the result the sorted sequence; rows with equal keys, whose order SQL
  leaves open, keep the order of the table here.
\<close>

definition order_asc :: "('a \<Rightarrow> sql_value) \<Rightarrow> 'a list \<Rightarrow> 'a list" where
  "order_asc col rows = sort_key (\<lambda>r. order_key (col r)) rows"

definition order_desc :: "('a \<Rightarrow> sql_value) \<Rightarrow> 'a list \<Rightarrow> 'a list" where
  "order_desc col rows = rev (sort_key (\<lambda>r. order_key (col r)) (rev rows))"

text \<open>
  Modelled from the spec: \<^verbatim>\<open>column.ilike(pattern)\<close> runs in the engine, which is not in
  the source. The spec calls it a case-insensitive partial match; it is SQL \<^verbatim>\<open>LIKE\<close> on
  the lower-cased operands, where \<^verbatim>\<open>%\<close> in the pattern stands for any run of
  characters and \<^verbatim>\<open>_\<close> for any one character.
\<close>

definition lower_char :: "char \<Rightarrow> char" where
  "lower_char c =
     (let n = of_char c :: nat in if 65 \<le> n \<and> n \<le> 90 then char_of (n + 32) else c)"

fun sql_like :: "string \<Rightarrow> string \<Rightarrow> bool" where
  "sql_like [] t = (t = [])"
| "sql_like (p # ps) [] = (p = CHR ''%'' \<and> sql_like ps [])"
| "sql_like (p # ps) (c # cs) =
     (if p = CHR ''%'' then sql_like ps (c # cs) \<or> sql_like (p # ps) cs
      else (p = CHR ''_'' \<or> p = c) \<and> sql_like ps cs)"

definition ilike :: "string \<Rightarrow> string \<Rightarrow> bool" where
  "ilike text pattern = sql_like (map lower_char pattern) (map lower_char text)"

text \<open>
  Modelled from the spec: \<^verbatim>\<open>query.paginate(page, per_page, error_out=False)\<close> belongs to
  Flask-SQLAlchemy and is not in the source. The spec gives, for a page of at least 1 and
  a page size above 0, the page slice, the total matching count and the page count
  \<open>ceil(total / pageSize)\<close>. Outside that range the spec is silent; the values used here
  are the library's fallbacks (page 1, 20 per page).
\<close>

record 'a pagination =
  items :: "'a list"
  pagination_total :: nat
  pagination_pages :: nat

definition paginate :: "int \<Rightarrow> int \<Rightarrow> 'a list \<Rightarrow> 'a pagination" where
  "paginate page_v per_page_v query =
     (let p = (if page_v < 1 then 1 else page_v);
          n = (if per_page_v < 1 then 20 else per_page_v)
      in \<lparr> items = take (nat n) (drop (nat ((p - 1) * n)) query),
           pagination_total = length query,
           pagination_pages = nat \<lceil>real (length query) / real_of_int n\<rceil> \<rparr>)"

text \<open>The JSON object of \<^verbatim>\<open>/api/records\<close>; its keys carry the prefix \<open>resp_\<close> here.\<close>

record response =
  resp_records :: "stored list"
  resp_total :: nat
  resp_page :: int
  resp_per_page :: int
  resp_pages :: nat

text \<open>The parameters after their defaults, and the two filters.\<close>

definition page_of :: "request_args \<Rightarrow> int" where
  "page_of args = (case arg_page args of None \<Rightarrow> 1 | Some p \<Rightarrow> p)"

definition per_page_of :: "request_args \<Rightarrow> int" where
  "per_page_of args = (case arg_per_page args of None \<Rightarrow> 10 | Some n \<Rightarrow> n)"

definition country_of :: "request_args \<Rightarrow> string" where
  "country_of args = (case arg_country args of None \<Rightarrow> [] | Some s \<Rightarrow> s)"

definition continent_of :: "request_args \<Rightarrow> string" where
  "continent_of args = (case arg_continent args of None \<Rightarrow> [] | Some s \<Rightarrow> s)"

definition sort_by_of :: "request_args \<Rightarrow> string" where
  "sort_by_of args = (case arg_sort_by args of None \<Rightarrow> ''total_cases'' | Some s \<Rightarrow> s)"

definition order_of :: "request_args \<Rightarrow> string" where
  "order_of args = (case arg_order args of None \<Rightarrow> ''desc'' | Some s \<Rightarrow> s)"

definition apply_filters :: "request_args \<Rightarrow> stored list \<Rightarrow> stored list" where
  "apply_filters args query =
     (let query1 = (if country_of args \<noteq> []
                    then filter (\<lambda>r. ilike (country r) (''%'' @ country_of args @ ''%'')) query
                    else query)
      in if continent_of args \<noteq> [] \<and> continent_of args \<noteq> ''all''
         then filter (\<lambda>r. continent r = Some (continent_of args)) query1
         else query1)"

text \<open>\<^verbatim>\<open>get_records\<close>; \<open>Inl e\<close> is the answer \<^verbatim>\<open>{'error': str(e)}\<close> with status 500.\<close>

definition get_records :: "request_args \<Rightarrow> stored list \<Rightarrow> py_error + response" where
  "get_records args db =
     (let query = apply_filters args db
      in case column (sort_by_of args) of
           None \<Rightarrow> Inl AttributeError
         | Some col \<Rightarrow>
             (let query2 = (if order_of args = ''desc'' then order_desc col query
                            else order_asc col query);
                  pagination = paginate (page_of args) (per_page_of args) query2
              in Inr \<lparr> resp_records = items pagination,
                       resp_total = pagination_total pagination,
                       resp_page = page_of args,
                       resp_per_page = per_page_of args,
                       resp_pages = pagination_pages pagination \<rparr>))"

text \<open>Tables and requests for the examples.\<close>

definition stored_row :: "nat \<Rightarrow> string \<Rightarrow> int \<Rightarrow> int \<Rightarrow> int \<Rightarrow> stored" where
  "stored_row i c cases deaths recovered =
     \<lparr> country = c, country_code = upper example_tables (take 3 c), continent = None,
       population = None, total_cases = Some cases, new_cases = None,
       total_deaths = Some deaths, new_deaths = None, total_recovered = Some recovered,
       active_cases = None, critical_cases = None, cases_per_million = None,
       deaths_per_million = None, total_tests = None, tests_per_million = None,
       id_col = i, date_recorded = 0 \<rparr>"

definition plain_args :: request_args where
  "plain_args = \<lparr> arg_page = None, arg_per_page = None, arg_country = None,
     arg_continent = None, arg_sort_by = None, arg_order = None \<rparr>"

definition table_25 :: "stored list" where
  "table_25 = map (\<lambda>i. stored_row (Suc i) ''X'' (int i) 0 0) [0..<25]"

definition three_rows :: "stored list" where
  "three_rows = [stored_row 1 ''Peru'' 20 1 5, stored_row 2 ''Chile'' 30 2 6,
                 stored_row 3 ''Fiji'' 10 3 7]"

text \<open>The rows that passed the filters, in the order asked for.\<close>

definition ordered_rows ::
  "request_args \<Rightarrow> (stored \<Rightarrow> sql_value) \<Rightarrow> stored list \<Rightarrow> stored list" where
  "ordered_rows args col rows =
     (if order_of args = ''desc'' then order_desc col rows else order_asc col rows)"

section \<open>Properties of the normalizer\<close>

lemma example_tables_simps:
  "to_upper example_tables = example_upper"
  "isspace example_tables = example_isspace"
  by (simp_all add: example_tables_def)

lemma and_then_simps:
  "and_then (Inr x) f = f x"
  "and_then (Inl e) f = Inl e"
  by (simp_all add: and_then_def)

text \<open>
  Claim C4 (as amended). A payload that Python takes for false (\<^verbatim>\<open>None\<close>, \<^verbatim>\<open>False\<close>,
  zero, an empty string, list or dict), or that is a dict without the key
  \<^verbatim>\<open>'response'\<close>, a list without the element \<^verbatim>\<open>'response'\<close> or a string without that
  substring, makes \<^verbatim>\<open>clean_and_transform_data\<close> return the empty list, and nothing is
  raised.
\<close>

theorem clean_and_transform_data_no_response:
  assumes "\<not> truthy raw_data
     \<or> (\<exists>kvs. raw_data = JObj kvs \<and> ''response'' \<notin> fst ` set kvs)
     \<or> (\<exists>xs. raw_data = JList xs \<and> JStr ''response'' \<notin> set xs)
     \<or> (\<exists>s. raw_data = JStr s \<and> \<not> sublist ''response'' s)"
  shows "clean_and_transform_data py raw_data = Inr []"
  using assms by (auto simp: clean_and_transform_data_def)

theorem clean_and_transform_data_no_response_witness:
  "clean_and_transform_data example_tables (JObj [(''errors'', JList [])]) = Inr []
   \<and> clean_and_transform_data example_tables JNull = Inr []"
  using clean_and_transform_data_no_response
      [where raw_data = "JObj [(''errors'', JList [])]" and py = example_tables]
    clean_and_transform_data_no_response [where raw_data = JNull and py = example_tables]
  by simp

text \<open>
  The claim as written fails for a payload that is a non-zero number (or \<^verbatim>\<open>True\<close>): it
  has no \<^verbatim>\<open>'response'\<close> field, the test \<^verbatim>\<open>not raw_data\<close> is false, and
  \<^verbatim>\<open>'response' not in raw_data\<close> raises \<^verbatim>\<open>TypeError\<close> outside any \<^verbatim>\<open>try\<close>. A dict
  whose \<^verbatim>\<open>'response'\<close> is null has no list under that key either, and there the
  subscript \<^verbatim>\<open>[:500]\<close> raises.
\<close>

theorem clean_and_transform_data_number_raises:
  "clean_and_transform_data example_tables (JInt 5) = Inl TypeError
   \<and> clean_and_transform_data example_tables (JObj [(''response'', JNull)]) = Inl TypeError"
  by (simp add: clean_and_transform_data_def)

subsection \<open>What one entry contributes\<close>

lemma py_get_Inr: "py_get v k d = Inr x \<Longrightarrow> \<exists>kvs. v = JObj kvs"
  by (cases v) simp_all

lemma py_get_non_obj: "\<nexists>kvs. v = JObj kvs \<Longrightarrow> py_get v k d = Inl AttributeError"
  by (cases v) simp_all

lemma str_of_Inr: "str_of v = Inr s \<longleftrightarrow> v = JStr s"
  by (cases v) (simp_all add: str_of_def)

lemma str_of_non_str: "\<nexists>s. v = JStr s \<Longrightarrow> str_of v = Inl AttributeError"
  by (cases v) (simp_all add: str_of_def)

lemma and_then_Inr: "and_then m f = Inr y \<longleftrightarrow> (\<exists>x. m = Inr x \<and> f x = Inr y)"
  by (cases m) (simp_all add: and_then_def)

text \<open>
  An entry yields a record only if it is a dict whose country is a string other than
  the two placeholders and whose three groups are dicts (or missing); the record is then
  the dictionary display over the values read.
\<close>

lemma process_record_SomeD:
  assumes "process_record py record = Inr (Some r)"
  shows "\<exists>kvs s. record = JObj kvs \<and> map_of kvs ''country'' = Some (JStr s)
     \<and> s \<noteq> ''All'' \<and> s \<noteq> ''Unknown''
     \<and> r = cleaned_record_of py s s (top_field record ''continent'' (JStr ''Unknown''))
           (top_field record ''population'' JNull)
           [sub_field record ''cases'' ''total'', sub_field record ''cases'' ''new'',
            sub_field record ''deaths'' ''total'', sub_field record ''deaths'' ''new'',
            sub_field record ''cases'' ''recovered'', sub_field record ''cases'' ''active'',
            sub_field record ''cases'' ''critical'', sub_field record ''cases'' ''1M_pop'',
            sub_field record ''deaths'' ''1M_pop'', sub_field record ''tests'' ''total'',
            sub_field record ''tests'' ''1M_pop'']"
proof -
  from assms obtain kvs where rec: "record = JObj kvs"
    unfolding process_record_def and_then_Inr by (blast dest: py_get_Inr)
  let ?get = "\<lambda>k d. case map_of kvs k of None \<Rightarrow> d | Some v \<Rightarrow> v"
  note pr = assms [unfolded rec process_record_def]
  have c: "\<exists>c. ?get ''cases'' (JObj []) = JObj c"
  proof (rule ccontr)
    assume "\<not> ?thesis"
    then have "\<And>k d. py_get (?get ''cases'' (JObj [])) k d = Inl AttributeError"
      by (rule py_get_non_obj)
    with pr show False
      by (simp add: and_then_simps and_then_Inr split: if_splits)
  qed
  have d: "\<exists>c. ?get ''deaths'' (JObj []) = JObj c"
  proof (rule ccontr)
    assume "\<not> ?thesis"
    then have "\<And>k d. py_get (?get ''deaths'' (JObj [])) k d = Inl AttributeError"
      by (rule py_get_non_obj)
    with pr show False
      by (simp add: and_then_simps and_then_Inr split: if_splits)
  qed
  have t: "\<exists>c. ?get ''tests'' (JObj []) = JObj c"
  proof (rule ccontr)
    assume "\<not> ?thesis"
    then have "\<And>k d. py_get (?get ''tests'' (JObj [])) k d = Inl AttributeError"
      by (rule py_get_non_obj)
    with pr show False
      by (simp add: and_then_simps and_then_Inr split: if_splits)
  qed
  have n: "\<exists>s. ?get ''country'' (JStr ''Unknown'') = JStr s"
  proof (rule ccontr)
    assume "\<not> ?thesis"
    then have "str_of (?get ''country'' (JStr ''Unknown'')) = Inl AttributeError"
      by (rule str_of_non_str)
    with pr show False
      by (simp add: and_then_simps and_then_Inr split: if_splits)
  qed
  from c d t n obtain cs ds ts s where
    cs: "?get ''cases'' (JObj []) = JObj cs" and
    ds: "?get ''deaths'' (JObj []) = JObj ds" and
    ts: "?get ''tests'' (JObj []) = JObj ts" and
    s: "?get ''country'' (JStr ''Unknown'') = JStr s"
    by blast
  from s pr have ne: "s \<noteq> ''All''" "s \<noteq> ''Unknown''"
    by (auto simp: and_then_simps split: if_splits)
  from s ne have s': "map_of kvs ''country'' = Some (JStr s)"
    by (auto split: option.splits)
  from pr s s' ne cs ds ts show ?thesis unfolding rec
    by (simp add: and_then_simps str_of_def sub_field_def top_field_def)
qed

lemma process_record_None_iff:
  "process_record py record = Inr None \<longleftrightarrow>
     resolved_country record \<in> {Inr (JStr ''All''), Inr (JStr ''Unknown'')}"
  unfolding process_record_def resolved_country_def
  by (cases "py_get record ''country'' (JStr ''Unknown'')")
     (auto simp: and_then_simps and_then_Inr)

lemma record_of_entry_iff:
  "record_of_entry py e \<noteq> None \<longleftrightarrow>
     \<not> isl (process_record py e) \<and>
     resolved_country e \<notin> {Inr (JStr ''All''), Inr (JStr ''Unknown'')}"
proof (cases "process_record py e")
  case (Inl a)
  then show ?thesis by (simp add: record_of_entry_def)
next
  case (Inr b)
  then show ?thesis
    using process_record_None_iff [of py e]
    by (cases b) (simp_all add: record_of_entry_def)
qed

lemma sample_entry_record:
  "process_record example_tables sample_entry = Inr (Some
     (cleaned_record_of example_tables ''  usa '' ''  usa '' (JStr ''North-America'') (JInt 331000000)
        [JInt 100, JNull, JInt 10, JNull, JNull, JNull, JNull, JFloat 3, JNull, JNull, JNull]))"
  by (simp add: sample_entry_def process_record_def and_then_simps str_of_def)

subsection \<open>The loop\<close>

lemma clean_loop_map_filter:
  "clean_loop py entries acc = acc @ List.map_filter (record_of_entry py) entries"
  by (induction entries arbitrary: acc)
     (auto simp: record_of_entry_def map_filter_simps split: sum.splits option.splits)

text \<open>
  Claim C5. When the payload's \<^verbatim>\<open>'response'\<close> is a list, the output is, in input order,
  the records of those among the first 500 entries that contribute one; and an entry
  contributes one exactly when processing it raises nothing and its resolved country name
  is neither \<^verbatim>\<open>'All'\<close> nor \<^verbatim>\<open>'Unknown'\<close>. Entries past the 500th, skipped entries and
  entries that raise leave no trace, and the function returns normally.
\<close>

theorem clean_and_transform_data_first_500:
  assumes "map_of kvs ''response'' = Some (JList entries)"
  shows "clean_and_transform_data py (JObj kvs) =
           Inr (List.map_filter (record_of_entry py) (take 500 entries))
    \<and> (\<forall>e. record_of_entry py e \<noteq> None \<longleftrightarrow>
           \<not> isl (process_record py e) \<and>
           resolved_country e \<notin> {Inr (JStr ''All''), Inr (JStr ''Unknown'')})"
proof -
  from assms have "kvs \<noteq> []" "''response'' \<in> fst ` set kvs"
    by (auto dest: map_of_SomeD intro: rev_image_eqI)
  with assms have "clean_and_transform_data py (JObj kvs) =
           Inr (List.map_filter (record_of_entry py) (take 500 entries))"
    by (simp add: clean_and_transform_data_def clean_loop_map_filter)
  then show ?thesis using record_of_entry_iff by blast
qed

theorem clean_and_transform_data_first_500_witness:
  "map_sum id (map country) (clean_and_transform_data example_tables sample_payload)
     = Inr [''usa'', ''Peru'']
   \<and> clean_and_transform_data example_tables capped_payload = Inr []"
proof -
  let ?skipped = "JObj [(''country'', JStr ''All'')]"
  let ?late = "replicate 500 ?skipped @ [JObj [(''country'', JStr ''Peru'')]]"
  have hc: "map_of [(''response'', JList ?late)] ''response'' = Some (JList ?late)"
    by simp
  have "record_of_entry example_tables ?skipped = None"
    by (simp add: record_of_entry_def process_record_def and_then_simps)
  then have "List.map_filter (record_of_entry example_tables) (take 500 ?late) = []"
    by (simp add: List.map_filter_def)
  with clean_and_transform_data_first_500 [OF hc]
  have capped: "clean_and_transform_data example_tables capped_payload = Inr []"
    by (simp add: capped_payload_def)
  let ?entries = "[sample_entry, JObj [(''country'', JStr ''All'')], JNull,
            JObj [(''country'', JStr ''France''), (''cases'', JNull)],
            JObj [(''country'', JStr ''Peru'')]]"
  have h: "map_of [(''response'', JList ?entries)] ''response'' = Some (JList ?entries)"
    by simp
  have 1: "record_of_entry example_tables sample_entry \<noteq> None"
    by (simp add: record_of_entry_def sample_entry_record)
  have 2: "map_option country (record_of_entry example_tables sample_entry) = Some ''usa''"
    by (simp add: record_of_entry_def sample_entry_record cleaned_record_of_def strip_def
        example_tables_simps example_isspace_def)
  have 3: "record_of_entry example_tables (JObj [(''country'', JStr ''All'')]) = None"
    "record_of_entry example_tables JNull = None"
    "record_of_entry example_tables (JObj [(''country'', JStr ''France''), (''cases'', JNull)]) = None"
    "map_option country (record_of_entry example_tables (JObj [(''country'', JStr ''Peru'')])) = Some ''Peru''"
    by (simp_all add: record_of_entry_def process_record_def and_then_simps str_of_def
        cleaned_record_of_def strip_def example_tables_simps example_isspace_def)
  from 2 3(4) obtain a b where ab: "record_of_entry example_tables sample_entry = Some a" "country a = ''usa''"
    "record_of_entry example_tables (JObj [(''country'', JStr ''Peru'')]) = Some b" "country b = ''Peru''"
    by auto
  from clean_and_transform_data_first_500 [OF h]
  have "clean_and_transform_data example_tables sample_payload =
      Inr (List.map_filter (record_of_entry example_tables) (take 500 ?entries))"
    by (simp only: sample_payload_def)
  with 3 ab capped show ?thesis
    by (simp add: map_filter_simps)
qed

subsection \<open>Country and country code\<close>

lemma strip_decomp:
  "\<exists>pre suf. s = pre @ strip py s @ suf
     \<and> (\<forall>c\<in>set pre. isspace py c) \<and> (\<forall>c\<in>set suf. isspace py c)"
proof -
  let ?sp = "isspace py"
  let ?a = "takeWhile ?sp s" and ?b = "dropWhile ?sp s"
  let ?c = "takeWhile ?sp (rev ?b)"
  have "rev ?b = ?c @ dropWhile ?sp (rev ?b)" by simp
  then have "?b = strip py s @ rev ?c"
    unfolding strip_def by (metis rev_append rev_rev_ident)
  then have "s = ?a @ strip py s @ rev ?c"
    by (metis takeWhile_dropWhile_id)
  moreover have "\<forall>c\<in>set ?a. ?sp c" by (auto dest: set_takeWhileD)
  moreover have "\<forall>c\<in>set (rev ?c). ?sp c" by (auto dest: set_takeWhileD)
  ultimately show ?thesis by blast
qed

lemma strip_ends:
  assumes "strip py s \<noteq> []"
  shows "\<not> isspace py (hd (strip py s)) \<and> \<not> isspace py (last (strip py s))"
proof -
  let ?sp = "isspace py"
  let ?b = "dropWhile ?sp s"
  let ?d = "dropWhile ?sp (rev ?b)"
  from assms have d: "?d \<noteq> []" by (simp add: strip_def)
  then have "\<not> ?sp (hd ?d)" by (rule hd_dropWhile)
  with d have l: "\<not> ?sp (last (strip py s))"
    by (simp add: strip_def last_rev)
  from d have "rev ?b \<noteq> []" by (metis dropWhile.simps(1))
  then have b: "?b \<noteq> []" by simp
  then have hb: "\<not> ?sp (hd ?b)" by (rule hd_dropWhile)
  have "rev ?b = takeWhile ?sp (rev ?b) @ ?d" by simp
  then have "?b = strip py s @ rev (takeWhile ?sp (rev ?b))"
    unfolding strip_def by (metis rev_append rev_rev_ident)
  with assms have "hd ?b = hd (strip py s)" by (metis hd_append2)
  with hb l show ?thesis by simp
qed

text \<open>
  Claim C7. Whatever Python's tables for upper-casing and for whitespace are: an entry
  that yields a record has a string \<open>s\<close> under \<^verbatim>\<open>'country'\<close>; the record's
  \<open>country_code\<close> is the upper-case mapping of the first three code points of \<open>s\<close> as it
  stands, untrimmed (so the empty string when \<open>s\<close> is empty); and its \<open>country\<close> is \<open>s\<close>
  trimmed: \<open>s\<close> without a prefix and a suffix that consist of whitespace only, with no
  whitespace left at either end.
\<close>

theorem process_record_country_code:
  assumes "process_record py record = Inr (Some r)"
  shows "\<exists>kvs s. record = JObj kvs \<and> map_of kvs ''country'' = Some (JStr s)
     \<and> country_code r = concat (map (to_upper py) (take 3 s))
     \<and> (s = [] \<longrightarrow> country_code r = [])
     \<and> (\<exists>pre suf. s = pre @ country r @ suf
           \<and> (\<forall>c\<in>set pre. isspace py c) \<and> (\<forall>c\<in>set suf. isspace py c))
     \<and> (country r \<noteq> [] \<longrightarrow>
           \<not> isspace py (hd (country r)) \<and> \<not> isspace py (last (country r)))"
proof -
  from process_record_SomeD [OF assms] obtain kvs s where
    "record = JObj kvs" "map_of kvs ''country'' = Some (JStr s)"
    and cc: "country_code r = concat (map (to_upper py) (take 3 s))"
    and c: "country r = strip py s"
    by (auto simp: cleaned_record_of_def upper_def)
  moreover from cc have "s = [] \<longrightarrow> country_code r = []" by simp
  moreover note strip_decomp [of s py] strip_ends [of py s]
  ultimately show ?thesis by auto
qed

theorem process_record_country_code_witness:
  "map_sum id (map_option (\<lambda>r. (country_code r, country r)))
     (process_record example_tables sample_entry) = Inr (Some (''  U'', ''usa''))
   \<and> map_sum id (map_option (\<lambda>r. (country_code r, country r)))
     (process_record example_tables latin1_entry)
     = Inr (Some ([CHR 0xA0, CHR ''S'', CHR ''S'', CHR 0xC9], [CHR 0xDF, CHR 0xE9, CHR ''t'']))"
proof -
  let ?r1 = "cleaned_record_of example_tables ''  usa '' ''  usa '' (JStr ''North-America'')
        (JInt 331000000)
        [JInt 100, JNull, JInt 10, JNull, JNull, JNull, JNull, JFloat 3, JNull, JNull, JNull]"
  let ?s2 = "[CHR 0xA0, CHR 0xDF, CHR 0xE9, CHR ''t'', CHR '' '']"
  let ?r2 = "cleaned_record_of example_tables ?s2 ?s2 (JStr ''Unknown'') JNull
        [JNull, JNull, JNull, JNull, JNull, JNull, JNull, JNull, JNull, JNull, JNull]"
  have p1: "process_record example_tables sample_entry = Inr (Some ?r1)"
    by (rule sample_entry_record)
  have p2: "process_record example_tables latin1_entry = Inr (Some ?r2)"
    by (simp add: latin1_entry_def process_record_def and_then_simps str_of_def)
  have up: "to_upper example_tables = example_upper"
    by (simp add: example_tables_def)
  from process_record_country_code [OF p1] obtain kvs1 s1 where
    "sample_entry = JObj kvs1" "map_of kvs1 ''country'' = Some (JStr s1)"
    and cc1: "country_code ?r1 = concat (map (to_upper example_tables) (take 3 s1))"
    by blast
  then have "s1 = ''  usa ''" by (auto simp: sample_entry_def)
  with cc1 have "country_code ?r1 = concat (map example_upper (take 3 ''  usa ''))"
    by (simp only: up)
  also have "\<dots> = ''  U''" by code_simp
  finally have code1: "country_code ?r1 = ''  U''" .
  from process_record_country_code [OF p2] obtain kvs2 s2 where
    "latin1_entry = JObj kvs2" "map_of kvs2 ''country'' = Some (JStr s2)"
    and cc2: "country_code ?r2 = concat (map (to_upper example_tables) (take 3 s2))"
    by blast
  then have "s2 = ?s2" by (auto simp: latin1_entry_def)
  with cc2 have "country_code ?r2 = concat (map example_upper (take 3 ?s2))"
    by (simp only: up)
  also have "\<dots> = [CHR 0xA0, CHR ''S'', CHR ''S'', CHR 0xC9]" by code_simp
  finally have code2: "country_code ?r2 = [CHR 0xA0, CHR ''S'', CHR ''S'', CHR 0xC9]" .
  have "strip example_tables ''  usa '' = ''usa''" by code_simp
  then have c1: "country ?r1 = ''usa''" by (simp add: cleaned_record_of_def)
  have "strip example_tables ?s2 = [CHR 0xDF, CHR 0xE9, CHR ''t'']" by code_simp
  then have c2: "country ?r2 = [CHR 0xDF, CHR 0xE9, CHR ''t'']"
    by (simp add: cleaned_record_of_def)
  from p1 p2 code1 code2 c1 c2 show ?thesis by simp
qed

subsection \<open>Numeric fields\<close>

lemma py_or_simps:
  "py_or JNull d = d"
  "d \<noteq> JNull \<Longrightarrow> py_or v d \<noteq> JNull"
  "nonneg_number v \<Longrightarrow> nonneg_number d \<Longrightarrow> nonneg_number (py_or v d)"
  by (auto simp: py_or_def)

lemma numeric_fields_eq:
  assumes "process_record py record = Inr (Some r)"
  shows "numeric_fields r = map2 py_or (numeric_sources record) numeric_defaults"
  using process_record_SomeD [OF assms]
  by (auto simp: cleaned_record_of_def numeric_fields_def numeric_sources_def numeric_defaults_def)

text \<open>
  Claim C6 (as amended). Each of the twelve numeric fields of a produced record is
  \<^verbatim>\<open>value or default\<close> of the value read, with default \<open>0\<close> for the Integer fields and
  \<open>0.0\<close> for the Float fields. So no field is ever null, a missing or null value gives the
  default, and the fields are all non-negative numbers provided every value read is
  missing, null or a non-negative number: any other value is passed through as it is.
\<close>

theorem process_record_numeric_fields:
  assumes "process_record py record = Inr (Some r)"
  shows "numeric_fields r = map2 py_or (numeric_sources record) numeric_defaults
    \<and> (\<forall>v\<in>set (numeric_fields r). v \<noteq> JNull)
    \<and> (\<forall>i<12. numeric_sources record ! i = JNull
          \<longrightarrow> numeric_fields r ! i = numeric_defaults ! i)
    \<and> ((\<forall>v\<in>set (numeric_sources record). v = JNull \<or> nonneg_number v)
         \<longrightarrow> (\<forall>v\<in>set (numeric_fields r). nonneg_number v))"
proof -
  have len: "length (numeric_sources record) = 12" "length numeric_defaults = 12"
    by (simp_all add: numeric_sources_def numeric_defaults_def)
  have dflt: "\<forall>d\<in>set numeric_defaults. d \<noteq> JNull \<and> nonneg_number d"
    by (simp add: numeric_defaults_def)
  note eq = numeric_fields_eq [OF assms]
  have 1: "\<forall>v\<in>set (numeric_fields r). v \<noteq> JNull"
    unfolding eq using dflt by (auto simp: set_zip py_or_simps)
  have 2: "\<forall>i<12. numeric_sources record ! i = JNull
          \<longrightarrow> numeric_fields r ! i = numeric_defaults ! i"
    unfolding eq using len by (simp add: py_or_simps)
  have 3: "(\<forall>v\<in>set (numeric_sources record). v = JNull \<or> nonneg_number v)
         \<longrightarrow> (\<forall>v\<in>set (numeric_fields r). nonneg_number v)"
  proof (intro impI ballI)
    fix v assume a: "\<forall>v\<in>set (numeric_sources record). v = JNull \<or> nonneg_number v"
      and "v \<in> set (numeric_fields r)"
    then obtain i where i: "i < 12"
      "v = py_or (numeric_sources record ! i) (numeric_defaults ! i)"
      unfolding eq using len by (auto simp: set_zip)
    with len a dflt have
      "numeric_sources record ! i = JNull \<or> nonneg_number (numeric_sources record ! i)"
      "nonneg_number (numeric_defaults ! i)"
      by (simp_all add: nth_mem)
    with i show "nonneg_number v" by (auto simp: py_or_simps)
  qed
  from eq 1 2 3 show ?thesis by blast
qed

theorem process_record_numeric_fields_witness:
  "process_record example_tables sample_entry = Inr (Some
     (cleaned_record_of example_tables ''  usa '' ''  usa '' (JStr ''North-America'') (JInt 331000000)
        [JInt 100, JNull, JInt 10, JNull, JNull, JNull, JNull, JFloat 3, JNull, JNull, JNull]))
   \<and> numeric_sources sample_entry =
       [JInt 331000000, JInt 100, JNull, JInt 10, JNull, JNull, JNull, JNull, JFloat 3, JNull,
        JNull, JNull]
   \<and> numeric_fields
     (cleaned_record_of example_tables ''  usa '' ''  usa '' (JStr ''North-America'') (JInt 331000000)
        [JInt 100, JNull, JInt 10, JNull, JNull, JNull, JNull, JFloat 3, JNull, JNull, JNull])
     = [JInt 331000000, JInt 100, JInt 0, JInt 10, JInt 0, JInt 0, JInt 0, JInt 0, JFloat 3,
        JFloat 0, JInt 0, JFloat 0]"
proof -
  have src: "numeric_sources sample_entry =
       [JInt 331000000, JInt 100, JNull, JInt 10, JNull, JNull, JNull, JNull, JFloat 3, JNull,
        JNull, JNull]"
    by (simp add: numeric_sources_def sample_entry_def top_field_def sub_field_def)
  from process_record_numeric_fields [OF sample_entry_record]
  have "numeric_fields
     (cleaned_record_of example_tables ''  usa '' ''  usa '' (JStr ''North-America'') (JInt 331000000)
        [JInt 100, JNull, JInt 10, JNull, JNull, JNull, JNull, JFloat 3, JNull, JNull, JNull])
     = map2 py_or (numeric_sources sample_entry) numeric_defaults"
    by blast
  then show ?thesis
    using sample_entry_record unfolding src
    by (simp add: numeric_defaults_def py_or_def)
qed

text \<open>
  The claim as written fails: a negative number and a string (the upstream sends new
  cases as text such as \<^verbatim>\<open>'+12'\<close>) are truthy, so \<^verbatim>\<open>or\<close> passes them through.
\<close>

theorem clean_and_transform_data_negative_passes:
  "map_sum id (map (\<lambda>r. (total_cases r, new_cases r)))
      (clean_and_transform_data example_tables negative_payload)
     = Inr [(JInt (- 5), JStr ''+12'')]
   \<and> \<not> nonneg_number (JInt (- 5)) \<and> \<not> nonneg_number (JStr ''+12'')"
  by (simp add: negative_payload_def clean_and_transform_data_def process_record_def
      and_then_simps str_of_def cleaned_record_of_def py_or_def)

section \<open>Properties of the reconciler\<close>

lemma new_record_simps:
  "country (new_record r i t) = country r"
  "id_col (new_record r i t) = i"
  "stat.truncate (new_record r i t) = r"
  by (simp_all add: new_record_def stat.defs CovidRecord.defs)

lemma set_attrs_simps:
  "country (set_attrs row r t) = country r"
  "id_col (set_attrs row r t) = id_col row"
  "stat.truncate (set_attrs row r t) = r"
  "without_date (set_attrs row r t) = (id_col row, r)"
  by (simp_all add: set_attrs_def without_date_def stat.defs CovidRecord.defs)

lemma without_date_country:
  "without_date a = without_date b \<Longrightarrow> country a = country b"
  by (simp add: without_date_def stat.defs)

lemma first_by_country_None:
  "first_by_country c rows = None \<longleftrightarrow> c \<notin> set (map country rows)"
  by (auto simp: first_by_country_def find_None_iff)

subsection \<open>One step\<close>

lemma country_update_existing:
  "map country (update_existing r t rows) = map country rows"
  by (induction rows) (simp_all add: set_attrs_simps)

lemma country_upsert:
  "map country (upsert r t rows) =
     (if country r \<in> set (map country rows) then map country rows
      else map country rows @ [country r])"
proof (cases "first_by_country (country r) rows")
  case None
  then have "country r \<notin> set (map country rows)"
    by (simp add: first_by_country_None)
  with None show ?thesis
    by (simp add: upsert_def new_record_simps)
next
  case (Some a)
  then have "country r \<in> set (map country rows)"
    using first_by_country_None [of "country r" rows] by simp
  with Some show ?thesis
    by (simp add: upsert_def country_update_existing)
qed

lemma upsert_present:
  "country r \<in> set (map country rows) \<Longrightarrow> upsert r t rows = update_existing r t rows"
  using first_by_country_None [of "country r" rows]
  by (cases "first_by_country (country r) rows") (simp_all add: upsert_def)

lemma first_update_existing_same:
  "country r \<in> set (map country rows) \<Longrightarrow>
   map_option stat.truncate (first_by_country (country r) (update_existing r t rows)) = Some r"
  by (induction rows) (auto simp: first_by_country_def set_attrs_simps)

lemma first_update_existing_other:
  "c \<noteq> country r \<Longrightarrow>
   first_by_country c (update_existing r t rows) = first_by_country c rows"
  by (induction rows) (auto simp: first_by_country_def set_attrs_simps)

lemma first_by_country_append:
  "first_by_country c (xs @ ys) =
     (case first_by_country c xs of None \<Rightarrow> first_by_country c ys | Some a \<Rightarrow> Some a)"
  by (induction xs) (simp_all add: first_by_country_def)

lemma first_upsert_same:
  "map_option stat.truncate (first_by_country (country r) (upsert r t rows)) = Some r"
proof (cases "first_by_country (country r) rows")
  case None
  then show ?thesis
    by (simp add: upsert_def first_by_country_append)
       (simp add: first_by_country_def new_record_simps)
next
  case (Some a)
  then have "country r \<in> set (map country rows)"
    using first_by_country_None [of "country r" rows] by simp
  then show ?thesis
    by (simp add: upsert_present first_update_existing_same)
qed

lemma first_upsert_other:
  assumes "c \<noteq> country r"
  shows "first_by_country c (upsert r t rows) = first_by_country c rows"
proof (cases "first_by_country (country r) rows")
  case None
  with assms show ?thesis
    by (simp add: upsert_def first_by_country_append split: option.splits)
       (simp add: first_by_country_def new_record_simps)
next
  case (Some a)
  with assms show ?thesis
    by (simp add: upsert_def first_update_existing_other)
qed

subsection \<open>The loop without failures\<close>

lemma store_loop_ok:
  "\<forall>k<length records. \<not> fails (cnt + k) \<Longrightarrow>
   store_loop fails clock records session cnt =
     Inr (upsert_all clock records session cnt, cnt + length records)"
proof (induction records arbitrary: session cnt)
  case Nil
  then show ?case by simp
next
  case (Cons r records)
  from Cons.prems have "\<not> fails cnt" by force
  moreover from Cons.prems have "\<forall>k<length records. \<not> fails (Suc cnt + k)" by force
  ultimately show ?case using Cons.IH [of "Suc cnt"] by simp
qed

lemma store_loop_fails:
  "k < length records \<Longrightarrow> fails (cnt + k) \<Longrightarrow>
   store_loop fails clock records session cnt = Inl StorageError"
proof (induction records arbitrary: session cnt k)
  case Nil
  then show ?case by simp
next
  case (Cons r records)
  show ?case
  proof (cases k)
    case 0
    with Cons.prems show ?thesis by simp
  next
    case (Suc j)
    with Cons.prems have "j < length records" "fails (Suc cnt + j)" by simp_all
    then show ?thesis using Cons.IH [of j "Suc cnt"] by simp
  qed
qed

lemma upsert_all_snoc:
  "upsert_all clock (records @ [r]) session cnt =
     upsert r (clock (cnt + length records)) (upsert_all clock records session cnt)"
  by (induction records arbitrary: session cnt) simp_all

lemma distinct_upsert:
  "distinct (map country rows) \<Longrightarrow> distinct (map country (upsert r t rows))"
  by (simp add: country_upsert)

lemma distinct_upsert_all:
  "distinct (map country session) \<Longrightarrow>
   distinct (map country (upsert_all clock records session cnt))"
  by (induction records arbitrary: session cnt) (simp_all add: distinct_upsert)

lemma country_upsert_all_present:
  "set (map country records) \<subseteq> set (map country session) \<Longrightarrow>
   map country (upsert_all clock records session cnt) = map country session"
proof (induction records arbitrary: session cnt)
  case Nil
  then show ?case by simp
next
  case (Cons r records)
  let ?s = "upsert r (clock cnt) session"
  from Cons.prems have same: "map country ?s = map country session"
    by (simp add: country_upsert)
  with Cons.prems have "set (map country records) \<subseteq> set (map country ?s)"
    by simp
  from Cons.IH [OF this] same show ?case by simp
qed

subsection \<open>What a batch leaves\<close>

lemma latest_snoc:
  "latest (records @ [r]) c = (if country r = c then Some r else latest records c)"
  by (simp add: latest_def)

lemma latest_country: "latest records c = Some r \<Longrightarrow> country r = c"
  by (auto simp: latest_def dest: find_Some_iff [THEN iffD1])

lemma latest_None: "latest records c = None \<longleftrightarrow> c \<notin> set (map country records)"
  by (auto simp: latest_def find_None_iff)

lemma upsert_all_stores_latest:
  "c \<in> set (map country records) \<Longrightarrow>
   map_option stat.truncate (first_by_country c (upsert_all clock records session cnt))
     = latest records c"
proof (induction records arbitrary: c rule: rev_induct)
  case Nil
  then show ?case by simp
next
  case (snoc r records)
  show ?case
  proof (cases "c = country r")
    case True
    then show ?thesis
      by (simp add: upsert_all_snoc latest_snoc first_upsert_same)
  next
    case False
    with snoc.prems have "c \<in> set (map country records)" by auto
    with False snoc.IH [of c] show ?thesis
      by (auto simp: upsert_all_snoc latest_snoc first_upsert_other)
  qed
qed

subsection \<open>A second pass changes nothing but dates\<close>

lemma without_date_update_existing_cong:
  "map without_date a = map without_date b \<Longrightarrow>
   map without_date (update_existing r t a) = map without_date (update_existing r t' b)"
proof (induction a arbitrary: b)
  case Nil
  then show ?case by simp
next
  case (Cons x a)
  then obtain y b' where b: "b = y # b'" by (cases b) auto
  with Cons.prems have xy: "without_date x = without_date y"
    and ab: "map without_date a = map without_date b'" by simp_all
  from xy have "country x = country y" by (rule without_date_country)
  moreover from xy have "id_col x = id_col y" by (simp add: without_date_def)
  ultimately show ?case
    using Cons.IH [OF ab] xy ab unfolding b
    by (simp add: set_attrs_simps)
qed

lemma refresh_None:
  "m (country row) = None \<Longrightarrow> refresh m (row # rows) = row # refresh m rows"
  by simp

lemma refresh_Some:
  "m (country row) = Some r \<Longrightarrow> m' = m(country row := None) \<Longrightarrow>
   refresh m (row # rows) = set_attrs row r (date_recorded row) # refresh m' rows"
  by simp

lemma update_existing_refresh:
  assumes "country r \<in> set (map country rows)"
    and "\<And>c r'. m c = Some r' \<Longrightarrow> country r' = c"
  shows "map without_date (update_existing r t (refresh m rows)) =
         map without_date (refresh (m(country r \<mapsto> r)) rows)"
  using assms
proof (induction rows arbitrary: m)
  case Nil
  then show ?case by simp
next
  case (Cons row rows)
  let ?m = "m(country r \<mapsto> r)"
  show ?case
  proof (cases "country row = country r")
    case True
    then have new: "?m (country row) = Some r" by simp
    show ?thesis
    proof (cases "m (country row)")
      case None
      with True have "?m(country row := None) = m" by (simp add: fun_upd_idem)
      then have r: "refresh ?m (row # rows) =
          set_attrs row r (date_recorded row) # refresh m rows"
        using refresh_Some [where m="?m" and row=row and r=r and m'=m and rows=rows] new by simp
      show ?thesis
        unfolding refresh_None [where m=m and row=row, OF None] r using True by (simp add: set_attrs_simps)
    next
      case (Some r')
      then have c: "country r' = country row" by (rule Cons.prems(2))
      from True have "?m(country row := None) = m(country row := None)" by simp
      then have r: "refresh ?m (row # rows) =
          set_attrs row r (date_recorded row) # refresh (m(country row := None)) rows"
        using refresh_Some [where m="?m" and row=row and r=r and m'="m(country row := None)" and rows=rows] new by simp
      have l: "refresh m (row # rows) =
          set_attrs row r' (date_recorded row) # refresh (m(country row := None)) rows"
        using refresh_Some [where m=m and row=row and r=r' and rows=rows, OF Some] by blast
      show ?thesis
        unfolding l r using True c by (simp add: set_attrs_simps)
    qed
  next
    case False
    with Cons.prems(1) have mem: "country r \<in> set (map country rows)" by auto
    from False have old: "?m (country row) = m (country row)" by simp
    show ?thesis
    proof (cases "m (country row)")
      case None
      with old have "?m (country row) = None" by simp
      then have r: "refresh ?m (row # rows) = row # refresh ?m rows"
        using refresh_None [where m="?m" and row=row and rows=rows] by blast
      have ih: "map without_date (update_existing r t (refresh m rows)) =
          map without_date (refresh ?m rows)"
        using mem Cons.prems(2) by (rule Cons.IH)
      show ?thesis
        unfolding refresh_None [where m=m and row=row, OF None] r
        using False ih by simp
    next
      case (Some r')
      then have c: "country r' = country row" by (rule Cons.prems(2))
      let ?n = "m(country row := None)"
      have km: "country r'' = c" if "?n c = Some r''" for c r''
        using that Cons.prems(2) [of c r''] by (simp split: if_splits)
      from False have tw: "?n(country r \<mapsto> r) = ?m(country row := None)"
        by (simp add: fun_upd_twist)
      from old Some have "?m (country row) = Some r'" by simp
      then have r: "refresh ?m (row # rows) =
          set_attrs row r' (date_recorded row) # refresh (?n(country r \<mapsto> r)) rows"
        using tw refresh_Some [where m="?m" and row=row and r=r' and m'="?n(country r \<mapsto> r)" and rows=rows]
        by simp
      have l: "refresh m (row # rows) =
          set_attrs row r' (date_recorded row) # refresh ?n rows"
        using refresh_Some [where m=m and row=row and r=r' and rows=rows, OF Some] by blast
      have ih: "map without_date (update_existing r t (refresh ?n rows)) =
          map without_date (refresh (?n(country r \<mapsto> r)) rows)"
        using mem km by (rule Cons.IH)
      show ?thesis
        unfolding l r using False c ih by (simp add: set_attrs_simps)
    qed
  qed
qed

lemma latest_snoc_fun: "latest (records @ [r]) = (latest records)(country r \<mapsto> r)"
  by (auto simp: latest_snoc fun_eq_iff)

lemma upsert_all_refresh:
  "set (map country records) \<subseteq> set (map country session) \<Longrightarrow>
   map without_date (upsert_all clock records session cnt) =
   map without_date (refresh (latest records) session)"
proof (induction records rule: rev_induct)
  case Nil
  have "refresh (\<lambda>c. None) rows = rows" for rows :: "('a, 'b, 'c) CovidRecord list"
    by (induction rows) simp_all
  then show ?case by (simp add: latest_def)
next
  case (snoc r records)
  then have sub: "set (map country records) \<subseteq> set (map country session)"
    and mem: "country r \<in> set (map country session)" by auto
  let ?s = "upsert_all clock records session cnt"
  let ?t = "clock (cnt + length records)"
  have "map country ?s = map country session"
    using sub by (rule country_upsert_all_present)
  with mem have "upsert r ?t ?s = update_existing r ?t ?s"
    by (simp add: upsert_present)
  then have "map without_date (upsert_all clock (records @ [r]) session cnt) =
      map without_date (update_existing r ?t ?s)"
    by (simp add: upsert_all_snoc)
  also have "\<dots> = map without_date (update_existing r ?t (refresh (latest records) session))"
    using snoc.IH [OF sub] by (rule without_date_update_existing_cong)
  also have "\<dots> = map without_date (refresh ((latest records)(country r \<mapsto> r)) session)"
    using mem latest_country by (rule update_existing_refresh)
  finally show ?case unfolding latest_snoc_fun .
qed

lemma refresh_stored:
  "(\<And>c r. m c = Some r \<Longrightarrow> map_option stat.truncate (first_by_country c rows) = Some r) \<Longrightarrow>
   map without_date (refresh m rows) = map without_date rows"
proof (induction rows arbitrary: m)
  case Nil
  then show ?case by simp
next
  case (Cons row rows)
  show ?case
  proof (cases "m (country row)")
    case None
    have "map_option stat.truncate (first_by_country c rows) = Some r" if "m c = Some r" for c r
    proof -
      from that None have "c \<noteq> country row" by auto
      with Cons.prems [OF that] show ?thesis by (simp add: first_by_country_def)
    qed
    then have "map without_date (refresh m rows) = map without_date rows"
      by (rule Cons.IH)
    then show ?thesis unfolding refresh_None [where m=m and row=row, OF None] by simp
  next
    case (Some r')
    let ?n = "m(country row := None)"
    from Cons.prems [OF Some] have "stat.truncate row = r'"
      by (simp add: first_by_country_def)
    then have hd: "without_date (set_attrs row r' (date_recorded row)) = without_date row"
      by (simp add: set_attrs_simps without_date_def)
    have "map_option stat.truncate (first_by_country c rows) = Some r"
      if "?n c = Some r" for c r
    proof -
      from that have "c \<noteq> country row" "m c = Some r" by (auto split: if_splits)
      with Cons.prems [of c r] show ?thesis by (simp add: first_by_country_def)
    qed
    then have tl: "map without_date (refresh ?n rows) = map without_date rows"
      by (rule Cons.IH)
    have l: "refresh m (row # rows) =
        set_attrs row r' (date_recorded row) # refresh ?n rows"
      using refresh_Some [where m=m and row=row and r=r' and rows=rows, OF Some] by blast
    show ?thesis unfolding l using hd tl by simp
  qed
qed

lemma upsert_all_twice:
  "map without_date
     (upsert_all clock' records (upsert_all clock records session cnt) cnt') =
   map without_date (upsert_all clock records session cnt)"
proof -
  let ?s = "upsert_all clock records session cnt"
  have stored: "map_option stat.truncate (first_by_country c ?s) = Some r"
    if "latest records c = Some r" for c r
  proof -
    from that have "c \<in> set (map country records)"
      using latest_None [of records c] by auto
    then show ?thesis using that by (simp add: upsert_all_stores_latest)
  qed
  have "set (map country records) \<subseteq> set (map country ?s)"
  proof
    fix c assume c: "c \<in> set (map country records)"
    then obtain r where "latest records c = Some r"
      using latest_None [of records c] by auto
    then have "first_by_country c ?s \<noteq> None" using stored by fastforce
    then show "c \<in> set (map country ?s)" by (simp add: first_by_country_None)
  qed
  then have "map without_date (upsert_all clock' records ?s cnt') =
      map without_date (refresh (latest records) ?s)"
    by (rule upsert_all_refresh)
  also have "\<dots> = map without_date ?s"
    using stored by (rule refresh_stored)
  finally show ?thesis .
qed

subsection \<open>The whole call\<close>

lemma store_data_in_db_failed:
  assumes "k \<le> length records" "fails k"
  shows "store_data_in_db fails clock records db = (db, 0)"
proof (cases "\<exists>j<length records. fails j")
  case True
  then obtain j where "j < length records" "fails (0 + j)" by auto
  then have "store_loop fails clock records db 0 = Inl StorageError"
    by (rule store_loop_fails)
  then show ?thesis by (simp add: store_data_in_db_def)
next
  case False
  with assms have "fails (length records)"
    by (cases "k = length records") auto
  moreover from False have "store_loop fails clock records db 0 =
      Inr (upsert_all clock records db 0, 0 + length records)"
    by (intro store_loop_ok) simp
  ultimately show ?thesis by (simp add: store_data_in_db_def)
qed

lemma store_data_in_db_succeeded:
  assumes "\<forall>k\<le>length records. \<not> fails k"
  shows "store_data_in_db fails clock records db =
           (upsert_all clock records db 0, length records)"
proof -
  from assms have "store_loop fails clock records db 0 =
      Inr (upsert_all clock records db 0, 0 + length records)"
    by (intro store_loop_ok) simp
  with assms show ?thesis by (simp add: store_data_in_db_def)
qed

lemma store_data_in_db_cases:
  "store_data_in_db fails clock records db = (db, 0) \<or>
   store_data_in_db fails clock records db = (upsert_all clock records db 0, length records)"
  using store_data_in_db_failed [of _ records fails clock db]
    store_data_in_db_succeeded [of records fails clock db]
  by blast

lemma length_upsert_all_ge: "length session \<le> length (upsert_all clock records session cnt)"
proof (induction records arbitrary: session cnt)
  case Nil
  then show ?case by simp
next
  case (Cons r records)
  have "length session \<le> length (upsert r (clock cnt) session)"
    using arg_cong [OF country_upsert [of r "clock cnt" session], of length]
    by (simp split: if_splits)
  with Cons.IH [of "upsert r (clock cnt) session" "cnt + 1"] show ?case by simp
qed

text \<open>
  Claim C2. If the engine raises at any of its operations during a call, the table is
  left exactly as it was and the call returns 0 (it returns: nothing is re-raised). If
  it never raises, the call returns the number of records of the batch, each of which was
  either inserted or used to update a row; in particular the batch length when the
  country keys are distinct.
\<close>

theorem store_data_in_db_atomic:
  "((\<exists>k\<le>length records. fails k) \<longrightarrow>
      store_data_in_db fails clock records db = (db, 0))
   \<and> ((\<forall>k\<le>length records. \<not> fails k) \<longrightarrow>
      store_data_in_db fails clock records db =
        (upsert_all clock records db 0, length records))"
  using store_data_in_db_failed [of _ records fails clock db]
    store_data_in_db_succeeded [of records fails clock db]
  by blast

theorem store_data_in_db_atomic_witness:
  "store_data_in_db (\<lambda>k. k = 2) (\<lambda>k. 7) [sample_stat ''Peru'' 1, sample_stat ''Chile'' 2]
      [new_record (sample_stat ''Peru'' 0) 1 3]
     = ([new_record (sample_stat ''Peru'' 0) 1 3], 0)
   \<and> snd (store_data_in_db (\<lambda>k. False) (\<lambda>k. 7)
        [sample_stat ''Peru'' 1, sample_stat ''Chile'' 2]
        [new_record (sample_stat ''Peru'' 0) 1 3]) = 2"
proof -
  have 1: "\<exists>k\<le>length [sample_stat ''Peru'' 1, sample_stat ''Chile'' 2]. (\<lambda>k. k = 2) k"
    by simp
  have 2: "\<forall>k\<le>length [sample_stat ''Peru'' 1, sample_stat ''Chile'' 2]. \<not> (\<lambda>k. False) k"
    by simp
  from 1 store_data_in_db_atomic
    [of "[sample_stat ''Peru'' 1, sample_stat ''Chile'' 2]" "\<lambda>k. k = 2" "\<lambda>k. 7"
        "[new_record (sample_stat ''Peru'' 0) 1 3]"]
  have a: "store_data_in_db (\<lambda>k. k = 2) (\<lambda>k. 7)
      [sample_stat ''Peru'' 1, sample_stat ''Chile'' 2]
      [new_record (sample_stat ''Peru'' 0) 1 3]
     = ([new_record (sample_stat ''Peru'' 0) 1 3], 0)"
    by blast
  from 2 store_data_in_db_atomic
    [of "[sample_stat ''Peru'' 1, sample_stat ''Chile'' 2]" "\<lambda>k. False" "\<lambda>k. 7"
        "[new_record (sample_stat ''Peru'' 0) 1 3]"]
  have "snd (store_data_in_db (\<lambda>k. False) (\<lambda>k. 7)
        [sample_stat ''Peru'' 1, sample_stat ''Chile'' 2]
        [new_record (sample_stat ''Peru'' 0) 1 3]) = 2"
    by simp
  with a show ?thesis by blast
qed

lemma prefix_upsert_all:
  "\<exists>ys. map country (upsert_all clock records session cnt) = map country session @ ys"
proof (induction records arbitrary: session cnt)
  case Nil
  then show ?case by simp
next
  case (Cons r records)
  have "\<exists>ys. map country (upsert r (clock cnt) session) = map country session @ ys"
    by (simp add: country_upsert)
  with Cons.IH [of "upsert r (clock cnt) session" "cnt + 1"] show ?case by auto
qed

text \<open>
  Claim C3. A call of \<^verbatim>\<open>store_data_in_db\<close> on a table in which no two rows share a
  country leaves such a table, whatever the batch (its records may repeat a country),
  the clock and the failures of the engine; hence so does any sequence of calls. This
  rests on the query of the loop alone: the table itself admits two rows with one
  country, and a table that has them keeps them through every call.
\<close>

theorem store_data_in_db_country_unique:
  "(distinct (map country db) \<longrightarrow>
      distinct (map country (fst (store_data_in_db fails clock records db)))
      \<and> distinct (map country (fst (store_data_in_db fails' clock' records'
            (fst (store_data_in_db fails clock records db))))))
   \<and> (\<not> distinct (map country db) \<longrightarrow>
      \<not> distinct (map country (fst (store_data_in_db fails clock records db))))"
proof (rule conjI; rule impI)
  assume dup: "\<not> distinct (map country db)"
  obtain ys where "map country (upsert_all clock records db 0) = map country db @ ys"
    using prefix_upsert_all by blast
  with dup have "\<not> distinct (map country (upsert_all clock records db 0))" by simp
  with dup show "\<not> distinct (map country (fst (store_data_in_db fails clock records db)))"
    using store_data_in_db_cases [of fails clock records db] by auto
next
  assume assms: "distinct (map country db)"
  show "distinct (map country (fst (store_data_in_db fails clock records db)))
    \<and> distinct (map country (fst (store_data_in_db fails' clock' records'
          (fst (store_data_in_db fails clock records db)))))"
  proof -
  have step: "distinct (map country (fst (store_data_in_db f c rs d)))"
    if "distinct (map country d)"
    for f c and rs :: "('a, 'b, 'c) stat list" and d
    using store_data_in_db_cases [of f c rs d] that
    by (auto simp: distinct_upsert_all)
  from assms have "distinct (map country (fst (store_data_in_db fails clock records db)))"
    by (rule step)
  then show ?thesis using step by blast
  qed
qed

theorem store_data_in_db_country_unique_witness:
  "distinct (map country [new_record (sample_stat ''Peru'' 0) 1 3])
   \<and> map country (fst (store_data_in_db (\<lambda>k. False) (\<lambda>k. 7)
        [sample_stat ''Chile'' 1, sample_stat ''Peru'' 2, sample_stat ''Chile'' 3]
        [new_record (sample_stat ''Peru'' 0) 1 3])) = [''Peru'', ''Chile'']"
proof -
  have d: "distinct (map country [new_record (sample_stat ''Peru'' 0) 1 3])"
    by simp
  note store_data_in_db_country_unique [of "[new_record (sample_stat ''Peru'' 0) 1 3]"
      "\<lambda>k. False" "\<lambda>k. 7"
      "[sample_stat ''Chile'' 1, sample_stat ''Peru'' 2, sample_stat ''Chile'' 3]"]
  moreover have "map country (fst (store_data_in_db (\<lambda>k. False) (\<lambda>k. 7)
        [sample_stat ''Chile'' 1, sample_stat ''Peru'' 2, sample_stat ''Chile'' 3]
        [new_record (sample_stat ''Peru'' 0) 1 3])) = [''Peru'', ''Chile'']"
    by (simp add: store_data_in_db_def country_upsert new_record_simps sample_stat_def
        store_loop_ok country_upsert_all_present)
  ultimately show ?thesis using d by blast
qed

text \<open>
  Claim C1. Take a batch that has been stored (the engine did not fail), and store the
  same batch again, at any later time: the table has the same number of rows, and each
  row has the same key and the same fifteen column values as before; only
  \<^verbatim>\<open>date_recorded\<close> may differ. So the second run adds no row: it writes the rows in
  place. (If the engine fails during the second run the table is not touched at all.)
\<close>

theorem store_data_in_db_idempotent:
  assumes "\<forall>k\<le>length records. \<not> fails k"
  shows "length (fst (store_data_in_db fails' clock' records
            (fst (store_data_in_db fails clock records db))))
         = length (fst (store_data_in_db fails clock records db))
    \<and> map without_date (fst (store_data_in_db fails' clock' records
            (fst (store_data_in_db fails clock records db))))
         = map without_date (fst (store_data_in_db fails clock records db))"
proof -
  let ?db1 = "fst (store_data_in_db fails clock records db)"
  let ?db2 = "fst (store_data_in_db fails' clock' records ?db1)"
  from assms have db1: "?db1 = upsert_all clock records db 0"
    by (simp add: store_data_in_db_succeeded)
  have "?db2 = ?db1 \<or> ?db2 = upsert_all clock' records ?db1 0"
    using store_data_in_db_cases [of fails' clock' records ?db1] by auto
  then have eq: "map without_date ?db2 = map without_date ?db1"
    unfolding db1 using upsert_all_twice [of clock' records clock db 0 0] by auto
  from arg_cong [OF eq, of length] have "length ?db2 = length ?db1" by simp
  with eq show ?thesis by blast
qed

theorem store_data_in_db_idempotent_witness:
  "map without_date (fst (store_data_in_db (\<lambda>k. False) (\<lambda>k. 7)
        [sample_stat ''Chile'' 1, sample_stat ''Peru'' 2, sample_stat ''Chile'' 3]
        [new_record (sample_stat ''Peru'' 0) 1 3]))
     = [(1, sample_stat ''Peru'' 2), (2, sample_stat ''Chile'' 3)]
   \<and> map without_date (fst (store_data_in_db (\<lambda>k. False) (\<lambda>k. 9)
        [sample_stat ''Chile'' 1, sample_stat ''Peru'' 2, sample_stat ''Chile'' 3]
        (fst (store_data_in_db (\<lambda>k. False) (\<lambda>k. 7)
          [sample_stat ''Chile'' 1, sample_stat ''Peru'' 2, sample_stat ''Chile'' 3]
          [new_record (sample_stat ''Peru'' 0) 1 3]))))
     = [(1, sample_stat ''Peru'' 2), (2, sample_stat ''Chile'' 3)]"
proof -
  let ?batch = "[sample_stat ''Chile'' 1, sample_stat ''Peru'' 2, sample_stat ''Chile'' 3]"
  have ok: "\<forall>k\<le>length ?batch. \<not> (\<lambda>k. False) k"
    by simp
  have c: "country (sample_stat c n) = c" for c n
    by (simp add: sample_stat_def)
  have once: "map without_date (fst (store_data_in_db (\<lambda>k. False) (\<lambda>k. 7) ?batch
        [new_record (sample_stat ''Peru'' 0) 1 3]))
     = [(1, sample_stat ''Peru'' 2), (2, sample_stat ''Chile'' 3)]"
    by (simp add: store_data_in_db_succeeded upsert_def first_by_country_def
        new_record_simps set_attrs_simps next_id_def c without_date_def)
  from store_data_in_db_idempotent [OF ok, of "\<lambda>k. False" "\<lambda>k. 9" "\<lambda>k. 7"
      "[new_record (sample_stat ''Peru'' 0) 1 3]"] once
  show ?thesis by simp
qed

section \<open>Properties of the query service\<close>

subsection \<open>Statistics\<close>

lemma sum_list_map_filter_id:
  "sum_list (List.map_filter (\<lambda>x. x) xs) = (\<Sum>x\<leftarrow>xs. case x of None \<Rightarrow> 0 | Some v \<Rightarrow> (v::int))"
  by (induction xs) (simp_all add: map_filter_simps split: option.splits)

lemma or_zero_sql_sum:
  "or_zero (sql_sum xs) = (\<Sum>x\<leftarrow>xs. case x of None \<Rightarrow> 0 | Some v \<Rightarrow> v)"
proof (cases "List.map_filter (\<lambda>x. x) xs")
  case Nil
  with sum_list_map_filter_id [of xs] show ?thesis
    by (simp add: sql_sum_def or_zero_def)
next
  case (Cons v vs)
  with sum_list_map_filter_id [of xs] show ?thesis
    by (simp add: sql_sum_def or_zero_def)
qed

lemma or_zero_column: "or_zero (sql_sum (map col db)) = column_sum col db"
  by (simp add: or_zero_sql_sum column_sum_def comp_def)

text \<open>
  Claim C8. For every table, \<^verbatim>\<open>get_statistics\<close> reports the number of rows, the sums of
  \<^verbatim>\<open>total_cases\<close>, \<^verbatim>\<open>total_deaths\<close> and \<^verbatim>\<open>total_recovered\<close> over all rows, and as
  \<^verbatim>\<open>active_cases\<close> the first sum minus the other two. With sums 100, 10 and 50 that is
  40; nothing keeps it from being negative, as for a single row with 1 case, 2 deaths and
  3 recovered.
\<close>

theorem get_statistics_sums:
  "get_statistics db =
     \<lparr> stats_total_records = length db,
       stats_total_cases = column_sum total_cases db,
       stats_total_deaths = column_sum total_deaths db,
       stats_total_recovered = column_sum total_recovered db,
       stats_active_cases = column_sum total_cases db - column_sum total_deaths db
          - column_sum total_recovered db \<rparr>
   \<and> (column_sum total_cases db = 100 \<and> column_sum total_deaths db = 10
        \<and> column_sum total_recovered db = 50
        \<longrightarrow> stats_active_cases (get_statistics db) = 40)
   \<and> stats_active_cases (get_statistics [stored_row 1 ''Peru'' 1 2 3]) < 0"
proof -
  have eq: "get_statistics d =
     \<lparr> stats_total_records = length d,
       stats_total_cases = column_sum total_cases d,
       stats_total_deaths = column_sum total_deaths d,
       stats_total_recovered = column_sum total_recovered d,
       stats_active_cases = column_sum total_cases d - column_sum total_deaths d
          - column_sum total_recovered d \<rparr>" for d
    by (simp add: get_statistics_def or_zero_column Let_def)
  have "stats_active_cases (get_statistics [stored_row 1 ''Peru'' 1 2 3]) < 0"
    unfolding eq by (simp add: column_sum_def stored_row_def)
  with eq [of db] show ?thesis by simp
qed

theorem get_statistics_sums_witness:
  "column_sum total_cases [stored_row 1 ''Peru'' 60 4 20, stored_row 2 ''Chile'' 40 6 30] = 100
   \<and> column_sum total_deaths [stored_row 1 ''Peru'' 60 4 20, stored_row 2 ''Chile'' 40 6 30] = 10
   \<and> column_sum total_recovered [stored_row 1 ''Peru'' 60 4 20, stored_row 2 ''Chile'' 40 6 30]
       = 50
   \<and> stats_active_cases
       (get_statistics [stored_row 1 ''Peru'' 60 4 20, stored_row 2 ''Chile'' 40 6 30]) = 40"
proof -
  let ?db = "[stored_row 1 ''Peru'' 60 4 20, stored_row 2 ''Chile'' 40 6 30]"
  have s: "column_sum total_cases ?db = 100" "column_sum total_deaths ?db = 10"
    "column_sum total_recovered ?db = 50"
    by (simp_all add: column_sum_def stored_row_def)
  with get_statistics_sums [of ?db] show ?thesis by blast
qed

subsection \<open>Ordering and pages\<close>

lemma mset_ordered_rows: "mset (ordered_rows args col rows) = mset rows"
  by (simp add: ordered_rows_def order_asc_def order_desc_def)

lemma sorted_order_asc:
  "sorted_wrt (\<lambda>a b. order_key (col a) \<le> order_key (col b)) (order_asc col rows)"
  using sorted_sort_key [of "\<lambda>r. order_key (col r)" rows]
  by (simp add: order_asc_def sorted_map)

lemma sorted_order_desc:
  "sorted_wrt (\<lambda>a b. order_key (col b) \<le> order_key (col a)) (order_desc col rows)"
  using sorted_sort_key [of "\<lambda>r. order_key (col r)" "rev rows"]
  by (simp add: order_desc_def sorted_map sorted_wrt_rev)

lemma get_records_eq:
  assumes "column (sort_by_of args) = Some col"
  shows "get_records args db =
     Inr \<lparr> resp_records = items (paginate (page_of args) (per_page_of args)
               (ordered_rows args col (apply_filters args db))),
           resp_total = length (apply_filters args db),
           resp_page = page_of args,
           resp_per_page = per_page_of args,
           resp_pages = pagination_pages (paginate (page_of args) (per_page_of args)
               (ordered_rows args col (apply_filters args db))) \<rparr>"
  using assms arg_cong [OF mset_ordered_rows [of args col "apply_filters args db"], of size]
  by (simp add: get_records_def ordered_rows_def paginate_def Let_def)

lemma paginate_in_range:
  assumes "1 \<le> p" "0 < n"
  shows "paginate p n rows =
     \<lparr> items = take (nat n) (drop (nat ((p - 1) * n)) rows),
       pagination_total = length rows,
       pagination_pages = nat \<lceil>real (length rows) / real_of_int n\<rceil> \<rparr>"
  using assms by (simp add: paginate_def)

lemma take_drop_nth:
  "a + n \<le> length xs \<Longrightarrow> take n (drop a xs) = map (nth xs) [a..<a + n]"
  by (simp add: list_eq_iff_nth_eq)

text \<open>
  Claim C9. For a page of at least 1, a page size above 0 and a sort column that exists,
  \<^verbatim>\<open>get_records\<close> answers with: the number of rows that pass the filters; the page
  slice (rows \<open>(page - 1) * per_page\<close> up to \<open>page * per_page\<close>, counted from 0) of those
  rows put in order, which are the same rows sorted by the column in the direction
  asked; and \<open>ceil(total / per_page)\<close> as the page count. In particular, with 25 rows
  in the table and no filter, page 2 of size 10 holds the rows 11 to 20 of the order
  (indices 10 to 19), and there are 3 pages.
\<close>

theorem get_records_page:
  assumes "1 \<le> page_of args" "0 < per_page_of args" "column (sort_by_of args) = Some col"
  shows "get_records args db =
     Inr \<lparr> resp_records = take (nat (per_page_of args))
              (drop (nat ((page_of args - 1) * per_page_of args))
                 (ordered_rows args col (apply_filters args db))),
           resp_total = length (apply_filters args db),
           resp_page = page_of args,
           resp_per_page = per_page_of args,
           resp_pages =
             nat \<lceil>real (length (apply_filters args db)) / real_of_int (per_page_of args)\<rceil> \<rparr>
   \<and> mset (ordered_rows args col (apply_filters args db)) = mset (apply_filters args db)
   \<and> (if order_of args = ''desc''
      then sorted_wrt (\<lambda>a b. order_key (col b) \<le> order_key (col a))
             (ordered_rows args col (apply_filters args db))
      else sorted_wrt (\<lambda>a b. order_key (col a) \<le> order_key (col b))
             (ordered_rows args col (apply_filters args db)))
   \<and> (length db = 25 \<and> arg_country args = None \<and> arg_continent args = None
        \<and> page_of args = 2 \<and> per_page_of args = 10
      \<longrightarrow> get_records args db =
            Inr \<lparr> resp_records = map (nth (ordered_rows args col db)) [10..<20],
                  resp_total = 25, resp_page = 2, resp_per_page = 10, resp_pages = 3 \<rparr>)"
proof -
  let ?rows = "ordered_rows args col (apply_filters args db)"
  have len: "length ?rows = length (apply_filters args db)"
    using arg_cong [OF mset_ordered_rows [of args col "apply_filters args db"], of size]
    by simp
  have main: "get_records args db =
     Inr \<lparr> resp_records = take (nat (per_page_of args))
              (drop (nat ((page_of args - 1) * per_page_of args)) ?rows),
           resp_total = length (apply_filters args db),
           resp_page = page_of args,
           resp_per_page = per_page_of args,
           resp_pages =
             nat \<lceil>real (length (apply_filters args db)) / real_of_int (per_page_of args)\<rceil> \<rparr>"
    unfolding get_records_eq [OF assms(3)] paginate_in_range [OF assms(1,2)]
    by (simp add: len)
  have dir: "if order_of args = ''desc''
      then sorted_wrt (\<lambda>a b. order_key (col b) \<le> order_key (col a)) ?rows
      else sorted_wrt (\<lambda>a b. order_key (col a) \<le> order_key (col b)) ?rows"
    by (simp add: ordered_rows_def sorted_order_asc sorted_order_desc)
  have ex: "get_records args db =
            Inr \<lparr> resp_records = map (nth (ordered_rows args col db)) [10..<20],
                  resp_total = 25, resp_page = 2, resp_per_page = 10, resp_pages = 3 \<rparr>"
    if "length db = 25" "arg_country args = None" "arg_continent args = None"
      "page_of args = 2" "per_page_of args = 10"
  proof -
    from that have f: "apply_filters args db = db"
      by (simp add: apply_filters_def country_of_def continent_of_def)
    from that have l: "length (ordered_rows args col db) = 25"
      using len unfolding f by simp
    have "take 10 (drop 10 (ordered_rows args col db)) =
        map (nth (ordered_rows args col db)) [10..<10 + 10]"
      using l by (intro take_drop_nth) simp
    with that show ?thesis unfolding main f by simp
  qed
  from main mset_ordered_rows dir ex show ?thesis by blast
qed

theorem get_records_page_witness:
  "map_sum id (\<lambda>r. (map country (resp_records r), resp_total r, resp_pages r))
     (get_records (plain_args\<lparr>arg_page := Some 2, arg_per_page := Some 2\<rparr>) three_rows)
   = Inr ([''Fiji''], 3, 2)
   \<and> map_sum id (\<lambda>r. (map id_col (resp_records r), resp_total r, resp_pages r))
     (get_records (plain_args\<lparr>arg_page := Some 2, arg_per_page := Some 10\<rparr>) table_25)
   = Inr ([15, 14, 13, 12, 11, 10, 9, 8, 7, 6], 25, 3)"
proof -
  let ?args25 = "plain_args\<lparr>arg_page := Some 2, arg_per_page := Some 10\<rparr>"
  let ?c = "\<lambda>r::stored. nullable Integer (total_cases r)"
  have a1: "1 \<le> page_of ?args25" by (simp add: page_of_def)
  have a2: "0 < per_page_of ?args25" by (simp add: per_page_of_def)
  have a3: "column (sort_by_of ?args25) = Some ?c"
    by (simp add: sort_by_of_def plain_args_def column_def)
  have a4: "length table_25 = 25 \<and> arg_country ?args25 = None \<and> arg_continent ?args25 = None
      \<and> page_of ?args25 = 2 \<and> per_page_of ?args25 = 10"
    by (simp add: table_25_def plain_args_def page_of_def per_page_of_def)
  have ord: "ordered_rows ?args25 ?c table_25 = order_desc ?c table_25"
    by (simp add: ordered_rows_def order_of_def plain_args_def)
  have ids: "map id_col (order_desc ?c table_25) = rev [1..<26]"
    by code_simp
  from arg_cong [OF ids, of length] have len: "length (order_desc ?c table_25) = 25"
    by simp
  have "map id_col (map (nth (order_desc ?c table_25)) [10..<20]) =
      map (nth (map id_col (order_desc ?c table_25))) [10..<20]"
    using len by simp
  also have "\<dots> = [15, 14, 13, 12, 11, 10, 9, 8, 7, 6]"
    unfolding ids by code_simp
  finally have page: "map id_col (map (nth (order_desc ?c table_25)) [10..<20]) =
      [15, 14, 13, 12, 11, 10, 9, 8, 7, 6]" .
  from get_records_page [OF a1 a2 a3, of table_25] a4
  have "get_records ?args25 table_25 =
      Inr \<lparr> resp_records = map (nth (ordered_rows ?args25 ?c table_25)) [10..<20],
            resp_total = 25, resp_page = 2, resp_per_page = 10, resp_pages = 3 \<rparr>"
    by blast
  then have big: "map_sum id (\<lambda>r. (map id_col (resp_records r), resp_total r, resp_pages r))
     (get_records ?args25 table_25)
   = Inr ([15, 14, 13, 12, 11, 10, 9, 8, 7, 6], 25, 3)"
    unfolding ord using page by simp
  let ?args = "plain_args\<lparr>arg_page := Some 2, arg_per_page := Some 2\<rparr>"
  let ?col = "\<lambda>r::stored. nullable Integer (total_cases r)"
  have 1: "1 \<le> page_of ?args" by (simp add: page_of_def)
  have 2: "0 < per_page_of ?args" by (simp add: per_page_of_def)
  have 3: "column (sort_by_of ?args) = Some ?col"
    by (simp add: sort_by_of_def plain_args_def column_def)
  have f: "apply_filters ?args three_rows = three_rows"
    by (simp add: apply_filters_def country_of_def continent_of_def plain_args_def)
  have o: "ordered_rows ?args ?col three_rows =
      [stored_row 2 ''Chile'' 30 2 6, stored_row 1 ''Peru'' 20 1 5, stored_row 3 ''Fiji'' 10 3 7]"
    by (simp add: ordered_rows_def order_of_def plain_args_def order_desc_def three_rows_def
        stored_row_def nullable_def)
  from get_records_page [OF 1 2 3, of three_rows]
  have "get_records ?args three_rows =
     Inr \<lparr> resp_records = take (nat (per_page_of ?args))
              (drop (nat ((page_of ?args - 1) * per_page_of ?args))
                 (ordered_rows ?args ?col (apply_filters ?args three_rows))),
           resp_total = length (apply_filters ?args three_rows),
           resp_page = page_of ?args,
           resp_per_page = per_page_of ?args,
           resp_pages =
             nat \<lceil>real (length (apply_filters ?args three_rows))
                    / real_of_int (per_page_of ?args)\<rceil> \<rparr>"
    by blast
  then have "map_sum id (\<lambda>r. (map country (resp_records r), resp_total r, resp_pages r))
     (get_records ?args three_rows) = Inr ([''Fiji''], 3, 2)"
    unfolding f o
    by (simp add: page_of_def per_page_of_def three_rows_def stored_row_def)
  with big show ?thesis by blast
qed

text \<open>
  Claim C10. With a sort column that exists the request never ends in an error because
  of \<^verbatim>\<open>order\<close>. An absent \<^verbatim>\<open>order\<close> is treated as \<^verbatim>\<open>'desc'\<close>; any value other than
  the exact string \<^verbatim>\<open>'desc'\<close> (so \<^verbatim>\<open>'DESC'\<close>, \<^verbatim>\<open>'Desc'\<close> or nonsense) is treated as
  \<^verbatim>\<open>'asc'\<close>. The rows of the page descend by the column in the first case and ascend in
  the second.
\<close>

theorem get_records_order:
  assumes "column (sort_by_of args) = Some col"
  shows "(arg_order args = None \<longrightarrow>
            get_records args db = get_records (args\<lparr>arg_order := Some ''desc''\<rparr>) db)
   \<and> (\<forall>s. arg_order args = Some s \<and> s \<noteq> ''desc'' \<longrightarrow>
            get_records args db = get_records (args\<lparr>arg_order := Some ''asc''\<rparr>) db)
   \<and> (\<exists>r. get_records args db = Inr r
        \<and> (if arg_order args = None \<or> arg_order args = Some ''desc''
           then sorted_wrt (\<lambda>a b. order_key (col b) \<le> order_key (col a)) (resp_records r)
           else sorted_wrt (\<lambda>a b. order_key (col a) \<le> order_key (col b)) (resp_records r)))"
proof -
  have params: "page_of (args\<lparr>arg_order := x\<rparr>) = page_of args"
    "per_page_of (args\<lparr>arg_order := x\<rparr>) = per_page_of args"
    "sort_by_of (args\<lparr>arg_order := x\<rparr>) = sort_by_of args"
    "apply_filters (args\<lparr>arg_order := x\<rparr>) db = apply_filters args db" for x
    by (simp_all add: page_of_def per_page_of_def sort_by_of_def apply_filters_def
        country_of_def continent_of_def)
  have a: "get_records args db = get_records (args\<lparr>arg_order := Some ''desc''\<rparr>) db"
    if "arg_order args = None"
    using that assms by (simp add: get_records_def params order_of_def Let_def)
  have b: "get_records args db = get_records (args\<lparr>arg_order := Some ''asc''\<rparr>) db"
    if "arg_order args = Some s" "s \<noteq> ''desc''" for s
    using that assms by (simp add: get_records_def params order_of_def Let_def)
  let ?rows = "ordered_rows args col (apply_filters args db)"
  let ?page = "items (paginate (page_of args) (per_page_of args) ?rows)"
  have slice: "sorted_wrt P (items (paginate p n rows))" if "sorted_wrt P rows"
    for P p n and rows :: "stored list"
    using that by (simp add: paginate_def Let_def sorted_wrt_take sorted_wrt_drop)
  have desc: "sorted_wrt (\<lambda>a b. order_key (col b) \<le> order_key (col a))
      (items (paginate (page_of args) (per_page_of args)
         (order_desc col (apply_filters args db))))"
    by (rule slice) (rule sorted_order_desc)
  have asc: "sorted_wrt (\<lambda>a b. order_key (col a) \<le> order_key (col b))
      (items (paginate (page_of args) (per_page_of args)
         (order_asc col (apply_filters args db))))"
    by (rule slice) (rule sorted_order_asc)
  have d: "order_of args = ''desc'' \<longleftrightarrow> arg_order args = None \<or> arg_order args = Some ''desc''"
    by (simp add: order_of_def split: option.splits)
  have "if arg_order args = None \<or> arg_order args = Some ''desc''
      then sorted_wrt (\<lambda>a b. order_key (col b) \<le> order_key (col a)) ?page
      else sorted_wrt (\<lambda>a b. order_key (col a) \<le> order_key (col b)) ?page"
    using d asc desc by (simp add: ordered_rows_def)
  then have c: "\<exists>r. get_records args db = Inr r
        \<and> (if arg_order args = None \<or> arg_order args = Some ''desc''
           then sorted_wrt (\<lambda>a b. order_key (col b) \<le> order_key (col a)) (resp_records r)
           else sorted_wrt (\<lambda>a b. order_key (col a) \<le> order_key (col b)) (resp_records r))"
    unfolding get_records_eq [OF assms] by simp
  from a b c show ?thesis by blast
qed

theorem get_records_order_witness:
  "map_sum id (\<lambda>r. map country (resp_records r)) (get_records plain_args three_rows)
     = Inr [''Chile'', ''Peru'', ''Fiji'']
   \<and> map_sum id (\<lambda>r. map country (resp_records r))
       (get_records (plain_args\<lparr>arg_order := Some ''DESC''\<rparr>) three_rows)
     = Inr [''Fiji'', ''Peru'', ''Chile'']"
proof -
  let ?col = "\<lambda>r::stored. nullable Integer (total_cases r)"
  have 1: "column (sort_by_of plain_args) = Some ?col"
    by (simp add: sort_by_of_def plain_args_def column_def)
  have 2: "column (sort_by_of (plain_args\<lparr>arg_order := Some ''DESC''\<rparr>)) = Some ?col"
    by (simp add: sort_by_of_def plain_args_def column_def)
  have n: "arg_order plain_args = None" by (simp add: plain_args_def)
  have s: "arg_order (plain_args\<lparr>arg_order := Some ''DESC''\<rparr>) = Some ''DESC''
      \<and> ''DESC'' \<noteq> ''desc''"
    by simp
  have "get_records plain_args three_rows =
      get_records (plain_args\<lparr>arg_order := Some ''desc''\<rparr>) three_rows"
    using get_records_order [OF 1, of three_rows] n by blast
  moreover have "get_records (plain_args\<lparr>arg_order := Some ''DESC''\<rparr>) three_rows =
      get_records (plain_args\<lparr>arg_order := Some ''asc''\<rparr>) three_rows"
    using get_records_order [OF 2, of three_rows] s by simp
  moreover have "map_sum id (\<lambda>r. map country (resp_records r))
      (get_records (plain_args\<lparr>arg_order := Some ''desc''\<rparr>) three_rows)
     = Inr [''Chile'', ''Peru'', ''Fiji'']"
    by (simp add: get_records_def plain_args_def sort_by_of_def column_def order_of_def
        apply_filters_def country_of_def continent_of_def order_desc_def paginate_def
        page_of_def per_page_of_def three_rows_def stored_row_def nullable_def)
  moreover have "map_sum id (\<lambda>r. map country (resp_records r))
      (get_records (plain_args\<lparr>arg_order := Some ''asc''\<rparr>) three_rows)
     = Inr [''Fiji'', ''Peru'', ''Chile'']"
    by (simp add: get_records_def plain_args_def sort_by_of_def column_def order_of_def
        apply_filters_def country_of_def continent_of_def order_asc_def paginate_def
        page_of_def per_page_of_def three_rows_def stored_row_def nullable_def)
  ultimately show ?thesis by simp
qed

end
